theory Spec2Isabelle
  imports Main "HOL-Library.Word" "HOL-Library.Sublist"
begin

section \<open>Go strings, runes and UTF-8\<close>

text \<open>
  A Go \<open>string\<close> is a sequence of bytes, so it is modelled by \<open>string\<close> (a list of
  8-bit \<open>char\<close>). A rune is a code point, modelled by \<open>nat\<close>. Text outside ASCII is
  written as its UTF-8 bytes, as the Go compiler stores it.
\<close>

definition byte :: "char \<Rightarrow> nat" where
  "byte c = of_char c"

definition chr :: "nat \<Rightarrow> char" where
  "chr n = char_of n"

definition RuneError :: nat where
  "RuneError = 0xFFFD"

definition RuneSelf :: nat where
  "RuneSelf = 0x80"

text \<open>
  \<open>utf8.DecodeRuneInString\<close>, on a string split into its first byte and the rest: the
  rune and its width in bytes. A byte that does not start a well-formed encoding
  (a continuation byte, an overlong or truncated sequence, a surrogate, a value above
  U+10FFFF) decodes as \<open>RuneError\<close> of width 1. The second byte's accepted range
  depends on the first, as in Go's \<open>acceptRanges\<close>.
\<close>

definition cont :: "nat \<Rightarrow> bool" where
  "cont b = (0x80 \<le> b \<and> b \<le> 0xBF)"

definition acceptRange :: "nat \<Rightarrow> nat \<times> nat" where
  "acceptRange s0 =
     (if s0 = 0xE0 then (0xA0, 0xBF)
      else if s0 = 0xED then (0x80, 0x9F)
      else if s0 = 0xF0 then (0x90, 0xBF)
      else if s0 = 0xF4 then (0x80, 0x8F)
      else (0x80, 0xBF))"

definition runeSize :: "nat \<Rightarrow> nat" where
  "runeSize s0 =
     (if s0 < 0x80 then 1
      else if s0 < 0xC2 then 0
      else if s0 < 0xE0 then 2
      else if s0 < 0xF0 then 3
      else if s0 < 0xF5 then 4
      else 0)"

definition DecodeRune :: "char \<Rightarrow> string \<Rightarrow> nat \<times> nat" where
  "DecodeRune c cs =
     (let s0 = byte c; sz = runeSize s0 in
      if sz = 1 then (s0, 1)
      else if sz = 0 then (RuneError, 1)
      else if length cs < sz - 1 then (RuneError, 1)
      else
        let s1 = byte (cs ! 0) in
        if s1 < fst (acceptRange s0) \<or> snd (acceptRange s0) < s1 then (RuneError, 1)
        else if sz = 2 then ((s0 mod 0x20) * 0x40 + s1 mod 0x40, 2)
        else
          let s2 = byte (cs ! 1) in
          if \<not> cont s2 then (RuneError, 1)
          else if sz = 3 then ((s0 mod 0x10) * 0x1000 + (s1 mod 0x40) * 0x40 + s2 mod 0x40, 3)
          else
            let s3 = byte (cs ! 2) in
            if \<not> cont s3 then (RuneError, 1)
            else ((s0 mod 8) * 0x40000 + (s1 mod 0x40) * 0x1000
                    + (s2 mod 0x40) * 0x40 + s3 mod 0x40, 4))"

definition DecodeRuneInString :: "string \<Rightarrow> nat \<times> nat" where
  "DecodeRuneInString s = (case s of [] \<Rightarrow> (RuneError, 0) | c # cs \<Rightarrow> DecodeRune c cs)"

lemma DecodeRune_width: "1 \<le> snd (DecodeRune c cs) \<and> snd (DecodeRune c cs) \<le> 4"
  by (simp add: DecodeRune_def Let_def)

text \<open>The runes a \<open>for _, c := range s\<close> loop visits.\<close>

function runes :: "string \<Rightarrow> nat list" where
  "runes [] = []"
| "runes (c # cs) = fst (DecodeRune c cs) # runes (drop (snd (DecodeRune c cs) - 1) cs)"
  by pat_completeness auto
termination
  by (relation "measure length") auto

text \<open>
  \<open>utf8.EncodeRune\<close> (what \<open>strings.Builder.WriteRune\<close> appends): a surrogate or a
  value above U+10FFFF is written as \<open>RuneError\<close>.
\<close>

definition EncodeRune :: "nat \<Rightarrow> string" where
  "EncodeRune r =
     (if r \<le> 0x7F then [chr r]
      else if r \<le> 0x7FF then [chr (0xC0 + r div 0x40), chr (0x80 + r mod 0x40)]
      else if 0x10FFFF < r \<or> (0xD800 \<le> r \<and> r \<le> 0xDFFF) then [chr 0xEF, chr 0xBF, chr 0xBD]
      else if r \<le> 0xFFFF then
        [chr (0xE0 + r div 0x1000), chr (0x80 + (r div 0x40) mod 0x40), chr (0x80 + r mod 0x40)]
      else
        [chr (0xF0 + r div 0x40000), chr (0x80 + (r div 0x1000) mod 0x40),
         chr (0x80 + (r div 0x40) mod 0x40), chr (0x80 + r mod 0x40)])"


section \<open>Library functions of package strings, unicode and strconv\<close>

text \<open>
  The functions of the Go standard library that the program calls, written after
  their Go definitions. The Unicode case tables are not written out: they are the
  two fields of a record that every function depending on them takes as its first
  argument, so a theorem with a free \<open>L\<close> holds for every table.
\<close>

definition ascii_upper :: "char \<Rightarrow> char" where
  "ascii_upper c = (if 0x61 \<le> byte c \<and> byte c \<le> 0x7A then chr (byte c - 0x20) else c)"

definition ascii_lower :: "char \<Rightarrow> char" where
  "ascii_lower c = (if 0x41 \<le> byte c \<and> byte c \<le> 0x5A then chr (byte c + 0x20) else c)"

definition isASCII :: "string \<Rightarrow> bool" where
  "isASCII s = list_all (\<lambda>c. byte c < RuneSelf) s"

record case_tables =
  To_UpperCase :: "nat \<Rightarrow> nat"
  To_LowerCase :: "nat \<Rightarrow> nat"

text \<open>
  \<open>unicode.ToUpper\<close> and \<open>unicode.ToLower\<close>: ASCII is handled in place, every other
  rune goes to the case table (\<open>unicode.To\<close>).
\<close>

definition unicode_ToUpper :: "('a case_tables_scheme) \<Rightarrow> nat \<Rightarrow> nat" where
  "unicode_ToUpper L r =
     (if r \<le> 0x7F then (if 0x61 \<le> r \<and> r \<le> 0x7A then r - 0x20 else r)
      else To_UpperCase L r)"

definition unicode_ToLower :: "('a case_tables_scheme) \<Rightarrow> nat \<Rightarrow> nat" where
  "unicode_ToLower L r =
     (if r \<le> 0x7F then (if 0x41 \<le> r \<and> r \<le> 0x5A then r + 0x20 else r)
      else To_LowerCase L r)"

text \<open>
  \<open>strings.Map\<close> for a mapping that never drops a rune: every rune read from the
  string, an ill-formed byte being read as \<open>RuneError\<close>, is mapped and written back
  in UTF-8.
\<close>

definition strings_Map :: "(nat \<Rightarrow> nat) \<Rightarrow> string \<Rightarrow> string" where
  "strings_Map f s = concat (map (\<lambda>r. EncodeRune (f r)) (runes s))"

text \<open>
  \<open>strings.ToUpper\<close> and \<open>strings.ToLower\<close>: an all-ASCII string is converted byte
  by byte; any other string goes through \<open>strings.Map\<close>.
\<close>

definition ToUpper :: "('a case_tables_scheme) \<Rightarrow> string \<Rightarrow> string" where
  "ToUpper L s = (if isASCII s then map ascii_upper s else strings_Map (unicode_ToUpper L) s)"

definition ToLower :: "('a case_tables_scheme) \<Rightarrow> string \<Rightarrow> string" where
  "ToLower L s = (if isASCII s then map ascii_lower s else strings_Map (unicode_ToLower L) s)"

subsection \<open>strings.TrimSpace\<close>

definition asciiSpace :: "char \<Rightarrow> bool" where
  "asciiSpace c = (byte c = 0x09 \<or> byte c = 0x0A \<or> byte c = 0x0B \<or> byte c = 0x0C
                   \<or> byte c = 0x0D \<or> byte c = 0x20)"

text \<open>\<open>unicode.IsSpace\<close>: the White_Space property.\<close>

definition IsSpace :: "nat \<Rightarrow> bool" where
  "IsSpace r =
     ((0x09 \<le> r \<and> r \<le> 0x0D) \<or> r = 0x20 \<or> r = 0x85 \<or> r = 0xA0 \<or> r = 0x1680
      \<or> (0x2000 \<le> r \<and> r \<le> 0x200A) \<or> r = 0x2028 \<or> r = 0x2029 \<or> r = 0x202F
      \<or> r = 0x205F \<or> r = 0x3000)"

text \<open>\<open>strings.TrimLeftFunc(s, unicode.IsSpace)\<close>.\<close>

function TrimLeftSpace :: "string \<Rightarrow> string" where
  "TrimLeftSpace [] = []"
| "TrimLeftSpace (c # cs) =
     (if IsSpace (fst (DecodeRune c cs))
      then TrimLeftSpace (drop (snd (DecodeRune c cs) - 1) cs)
      else c # cs)"
  by pat_completeness auto
termination
  by (relation "measure length") auto

text \<open>
  \<open>utf8.DecodeLastRuneInString\<close>: the rune ending the string and its width. It looks
  back for a byte that can start a rune, at most four bytes from the end, decodes from
  there, and answers \<open>RuneError\<close> of width 1 unless that rune ends where the string
  ends.
\<close>

definition RuneStart :: "char \<Rightarrow> bool" where
  "RuneStart c = (\<not> cont (byte c))"

fun lastStart :: "string \<Rightarrow> nat \<Rightarrow> nat \<Rightarrow> nat option" where
  "lastStart s lim start =
     (if start < lim then None
      else if RuneStart (s ! start) then Some start
      else (case start of 0 \<Rightarrow> None | Suc k \<Rightarrow> lastStart s lim k))"

definition DecodeLastRuneInString :: "string \<Rightarrow> nat \<times> nat" where
  "DecodeLastRuneInString s =
     (let n = length s in
      if n = 0 then (RuneError, 0)
      else if byte (s ! (n - 1)) < RuneSelf then (byte (s ! (n - 1)), 1)
      else if n = 1 then (RuneError, 1)
      else
        let lim = n - 4;
            start = (case lastStart s lim (n - 2) of
                       Some i \<Rightarrow> i
                     | None \<Rightarrow> (if lim = 0 then 0 else lim - 1));
            d = DecodeRuneInString (drop start s)
        in if start + snd d \<noteq> n then (RuneError, 1) else d)"

lemma lastStart_le: "lastStart s lim k = Some i \<Longrightarrow> i \<le> k"
proof (induction k)
  case 0
  then show ?case by (simp split: if_splits)
next
  case (Suc k)
  then show ?case by (fastforce split: if_splits)
qed

declare lastStart.simps [simp del]

lemma DecodeLastRuneInString_width:
  assumes "s \<noteq> []"
  shows "1 \<le> snd (DecodeLastRuneInString s)"
proof -
  have ne: "0 < length s" using assms by simp
  have dec: "1 \<le> snd (DecodeRuneInString (drop i s))" if "i < length s" for i
  proof -
    from that obtain c cs where "drop i s = c # cs"
      by (cases "drop i s") auto
    then show ?thesis
      using DecodeRune_width [of c cs] by (simp add: DecodeRuneInString_def)
  qed
  have start: "(case lastStart s (length s - 4) (length s - 2) of
                  Some i \<Rightarrow> i
                | None \<Rightarrow> (if length s - 4 = 0 then 0 else length s - 4 - 1)) < length s"
  proof (cases "lastStart s (length s - 4) (length s - 2)")
    case None
    then show ?thesis using ne by auto
  next
    case (Some i)
    then have "i \<le> length s - 2" by (rule lastStart_le)
    with Some show ?thesis using assms by (cases s) auto
  qed
  show ?thesis
    using ne dec [OF start]
    by (simp add: DecodeLastRuneInString_def Let_def)
qed

text \<open>
  \<open>lastIndexFunc(s, unicode.IsSpace, false)\<close>: the index of the last rune, read from
  the end, that is not white space; \<open>None\<close> stands for \<open>-1\<close>.
\<close>

function lastIndexNotSpace :: "string \<Rightarrow> nat option" where
  "lastIndexNotSpace s =
     (if s = [] then None
      else if IsSpace (fst (DecodeLastRuneInString s))
      then lastIndexNotSpace (take (length s - snd (DecodeLastRuneInString s)) s)
      else Some (length s - snd (DecodeLastRuneInString s)))"
  by pat_completeness auto
termination
proof (relation "measure length")
  show "wf (measure length)" by simp
next
  fix s :: string
  assume "s \<noteq> []"
  then show "(take (length s - snd (DecodeLastRuneInString s)) s, s) \<in> measure length"
    using DecodeLastRuneInString_width [of s] by (cases s) auto
qed

declare lastIndexNotSpace.simps [simp del]

definition TrimRightSpace :: "string \<Rightarrow> string" where
  "TrimRightSpace s =
     (case lastIndexNotSpace s of
        None \<Rightarrow> []
      | Some i \<Rightarrow>
          if RuneSelf \<le> byte (s ! i) then take (i + snd (DecodeRuneInString (drop i s))) s
          else take (i + 1) s)"

definition TrimFunc_IsSpace :: "string \<Rightarrow> string" where
  "TrimFunc_IsSpace s = TrimRightSpace (TrimLeftSpace s)"

text \<open>
  \<open>strings.TrimSpace\<close>: ASCII white space is cut from both ends byte by byte; the
  first byte outside ASCII met on the way hands over to the rune-wise functions.
\<close>

definition TrimSpace :: "string \<Rightarrow> string" where
  "TrimSpace s =
     (let s1 = dropWhile asciiSpace s in
      if s1 \<noteq> [] \<and> RuneSelf \<le> byte (hd s1) then TrimFunc_IsSpace s1
      else
        let r = dropWhile asciiSpace (rev s1) in
        if r \<noteq> [] \<and> RuneSelf \<le> byte (hd r) then TrimRightSpace (rev r)
        else rev r)"

subsection \<open>strconv.ParseInt and integer formatting\<close>

datatype NumError = ErrSyntax | ErrRange

definition isDigit :: "char \<Rightarrow> bool" where
  "isDigit c = (0x30 \<le> byte c \<and> byte c \<le> 0x39)"

definition digitsVal :: "string \<Rightarrow> nat" where
  "digitsVal ds = foldl (\<lambda>acc c. acc * 10 + (byte c - 0x30)) 0 ds"

text \<open>
  \<open>strconv.ParseInt(s, 10, 64)\<close>: an optional sign, then one or more decimal digits
  and nothing else; a value outside the 64-bit signed range is a range error. Go
  detects the overflow while it accumulates the digits; the model compares the
  unbounded value with the bounds, which accepts the same strings.
\<close>

definition ParseInt :: "string \<Rightarrow> NumError + int" where
  "ParseInt s =
     (if s = [] then Inl ErrSyntax
      else
        let neg = (hd s = CHR ''-'');
            ds = (if hd s = CHR ''+'' \<or> hd s = CHR ''-'' then tl s else s)
        in if ds = [] then Inl ErrSyntax
           else if list_ex (\<lambda>c. \<not> isDigit c) ds then Inl ErrSyntax
           else if \<not> neg \<and> 2 ^ 63 \<le> digitsVal ds then Inl ErrRange
           else if neg \<and> 2 ^ 63 < digitsVal ds then Inl ErrRange
           else Inr (if neg then - int (digitsVal ds) else int (digitsVal ds)))"

text \<open>
  The verb \<open>%d\<close> of \<open>fmt.Sprintf\<close> on an \<open>int\<close>. Go's \<open>int\<close> is taken to be 64 bits wide,
  as on every 64-bit platform.
\<close>

function natDigits :: "nat \<Rightarrow> string" where
  "natDigits n = (if n < 10 then [chr (0x30 + n)] else natDigits (n div 10) @ [chr (0x30 + n mod 10)])"
  by pat_completeness auto
termination
  by (relation "measure id") auto

declare natDigits.simps [simp del]

definition FormatInt :: "int \<Rightarrow> string" where
  "FormatInt i = (if i < 0 then CHR ''-'' # natDigits (nat (- i)) else natDigits (nat i))"

section \<open>Data model\<close>

text \<open>
  \<open>time.Time\<close>, as far as the program reads it: the wall word and the seconds since
  1 January of year 1 (a signed 64-bit count). \<open>time.Time{}\<close> is the zero of both.
\<close>

record Time =
  wall :: "64 word"
  ext :: "64 word"

definition zeroTime :: Time where
  "zeroTime = \<lparr>wall = 0, ext = 0\<rparr>"

definition IsZero :: "Time \<Rightarrow> bool" where
  "IsZero t = (wall t = 0 \<and> ext t = 0)"

definition unixToInternal :: int where
  "unixToInternal = (1969 * 365 + 1969 div 4 - 1969 div 100 + 1969 div 400) * 86400"

text \<open>\<open>time.Unix(sec, 0)\<close>; the addition is Go's wrapping \<open>int64\<close> addition.\<close>

definition Unix :: "int \<Rightarrow> Time" where
  "Unix sec = \<lparr>wall = 0, ext = word_of_int sec + word_of_int unixToInternal\<rparr>"

text \<open>
  A JSON text after the syntax check: \<open>json.RawMessage\<close> holds bytes, and every use
  the program makes of them starts with \<open>json.Unmarshal\<close>, which first checks the
  syntax. So a raw message is modelled by \<open>json option\<close>: \<open>None\<close> for bytes that are
  not one well-formed JSON value (the empty message of an absent \<open>payload\<close> key
  included), otherwise the value. A number keeps its literal, which is what Go parses
  when it stores it; a string holds the bytes after unquoting; an object keeps its
  members in order, duplicates included.
\<close>

datatype json =
    JNull
  | JBool bool
  | JNumber string
  | JString string
  | JArray "json list"
  | JObject "(string \<times> json) list"

record Repo_t =
  Name :: string

record Event =
  Type :: string
  CreatedAt :: Time
  Repo :: Repo_t
  Payload :: "json option"

record PushPayload =
  Size :: int

record Issue_t =
  Number :: int
  Title :: string

record IssuesPayload =
  Action :: string
  Issue :: Issue_t

record PullRequest_t =
  Number :: int
  Title :: string

record PRPayload =
  Action :: string
  PullRequest :: PullRequest_t

record WatchPayload =
  Action :: string

record Forkee_t =
  FullName :: string

record ForkPayload =
  Forkee :: Forkee_t

section \<open>json.Unmarshal into the payload structs\<close>

datatype json_error = SyntaxError | UnmarshalTypeError

text \<open>
  An object key selects the struct field whose name it equals, or else equals after
  case folding. Folding maps ASCII letters to upper case and the two runes outside
  ASCII that fold to an ASCII letter, U+017F (long s) and U+212A (Kelvin sign), to
  \<open>S\<close> and \<open>K\<close>. Any other rune outside ASCII folds to a rune outside ASCII, so its
  bytes are left as they are: the field names are ASCII and the comparison comes out
  the same.
\<close>

function foldName :: "string \<Rightarrow> string" where
  "foldName [] = []"
| "foldName (c # cs) =
     (if byte c < RuneSelf then ascii_upper c # foldName cs
      else if byte c = 0xC5 \<and> map byte (take 1 cs) = [0xBF] then CHR ''S'' # foldName (drop 1 cs)
      else if byte c = 0xE2 \<and> map byte (take 2 cs) = [0x84, 0xAA] then CHR ''K'' # foldName (drop 2 cs)
      else c # foldName cs)"
  by pat_completeness auto
termination
  by (relation "measure length") auto

definition key_is :: "string \<Rightarrow> string \<Rightarrow> bool" where
  "key_is key name = (key = name \<or> foldName key = foldName name)"

text \<open>
  Storing a JSON value into a field that holds \<open>cur\<close>. \<open>null\<close> leaves the field as it
  is; a value of the wrong kind, or a number that is not a 64-bit decimal integer, is
  an \<open>UnmarshalTypeError\<close>. Go records the first such error, decodes the rest and
  returns the error at the end; the callers drop the struct whenever an error comes
  back, so the model stops at the first one.
\<close>

definition store_string :: "json \<Rightarrow> string \<Rightarrow> json_error + string" where
  "store_string v cur =
     (case v of JNull \<Rightarrow> Inr cur | JString s \<Rightarrow> Inr s | _ \<Rightarrow> Inl UnmarshalTypeError)"

definition store_int :: "json \<Rightarrow> int \<Rightarrow> json_error + int" where
  "store_int v cur =
     (case v of
        JNull \<Rightarrow> Inr cur
      | JNumber lit \<Rightarrow> (case ParseInt lit of Inl _ \<Rightarrow> Inl UnmarshalTypeError | Inr n \<Rightarrow> Inr n)
      | _ \<Rightarrow> Inl UnmarshalTypeError)"

fun store_members ::
  "(string \<Rightarrow> json \<Rightarrow> 'p \<Rightarrow> json_error + 'p) \<Rightarrow> (string \<times> json) list \<Rightarrow> 'p \<Rightarrow> json_error + 'p"
where
  "store_members f [] p = Inr p"
| "store_members f ((k, v) # kvs) p =
     (case f k v p of Inl e \<Rightarrow> Inl e | Inr p' \<Rightarrow> store_members f kvs p')"

definition store_struct ::
  "(string \<Rightarrow> json \<Rightarrow> 'p \<Rightarrow> json_error + 'p) \<Rightarrow> json \<Rightarrow> 'p \<Rightarrow> json_error + 'p"
where
  "store_struct f v cur =
     (case v of
        JNull \<Rightarrow> Inr cur
      | JObject kvs \<Rightarrow> store_members f kvs cur
      | _ \<Rightarrow> Inl UnmarshalTypeError)"

definition Unmarshal ::
  "(string \<Rightarrow> json \<Rightarrow> 'p \<Rightarrow> json_error + 'p) \<Rightarrow> 'p \<Rightarrow> json option \<Rightarrow> json_error + 'p"
where
  "Unmarshal f zero data =
     (case data of None \<Rightarrow> Inl SyntaxError | Some v \<Rightarrow> store_struct f v zero)"

text \<open>One member of each payload struct, by its \<open>json\<close> tag.\<close>

definition PushPayload_member :: "string \<Rightarrow> json \<Rightarrow> PushPayload \<Rightarrow> json_error + PushPayload" where
  "PushPayload_member k v p =
     (if key_is k ''size'' then map_sum id (\<lambda>n. p\<lparr>Size := n\<rparr>) (store_int v (Size p))
      else Inr p)"

definition Issue_member :: "string \<Rightarrow> json \<Rightarrow> Issue_t \<Rightarrow> json_error + Issue_t" where
  "Issue_member k v p =
     (if key_is k ''number''
      then map_sum id (\<lambda>n. p\<lparr>Issue_t.Number := n\<rparr>) (store_int v (Issue_t.Number p))
      else if key_is k ''title''
      then map_sum id (\<lambda>s. p\<lparr>Issue_t.Title := s\<rparr>) (store_string v (Issue_t.Title p))
      else Inr p)"

definition IssuesPayload_member ::
  "string \<Rightarrow> json \<Rightarrow> IssuesPayload \<Rightarrow> json_error + IssuesPayload"
where
  "IssuesPayload_member k v p =
     (if key_is k ''action''
      then map_sum id (\<lambda>s. p\<lparr>IssuesPayload.Action := s\<rparr>) (store_string v (IssuesPayload.Action p))
      else if key_is k ''issue''
      then map_sum id (\<lambda>i. p\<lparr>Issue := i\<rparr>) (store_struct Issue_member v (Issue p))
      else Inr p)"

definition PullRequest_member ::
  "string \<Rightarrow> json \<Rightarrow> PullRequest_t \<Rightarrow> json_error + PullRequest_t"
where
  "PullRequest_member k v p =
     (if key_is k ''number''
      then map_sum id (\<lambda>n. p\<lparr>PullRequest_t.Number := n\<rparr>) (store_int v (PullRequest_t.Number p))
      else if key_is k ''title''
      then map_sum id (\<lambda>s. p\<lparr>PullRequest_t.Title := s\<rparr>) (store_string v (PullRequest_t.Title p))
      else Inr p)"

definition PRPayload_member :: "string \<Rightarrow> json \<Rightarrow> PRPayload \<Rightarrow> json_error + PRPayload" where
  "PRPayload_member k v p =
     (if key_is k ''action''
      then map_sum id (\<lambda>s. p\<lparr>PRPayload.Action := s\<rparr>) (store_string v (PRPayload.Action p))
      else if key_is k ''pull_request''
      then map_sum id (\<lambda>i. p\<lparr>PullRequest := i\<rparr>) (store_struct PullRequest_member v (PullRequest p))
      else Inr p)"

definition WatchPayload_member :: "string \<Rightarrow> json \<Rightarrow> WatchPayload \<Rightarrow> json_error + WatchPayload" where
  "WatchPayload_member k v p =
     (if key_is k ''action''
      then map_sum id (\<lambda>s. p\<lparr>WatchPayload.Action := s\<rparr>) (store_string v (WatchPayload.Action p))
      else Inr p)"

definition Forkee_member :: "string \<Rightarrow> json \<Rightarrow> Forkee_t \<Rightarrow> json_error + Forkee_t" where
  "Forkee_member k v p =
     (if key_is k ''full_name''
      then map_sum id (\<lambda>s. p\<lparr>FullName := s\<rparr>) (store_string v (FullName p))
      else Inr p)"

definition ForkPayload_member :: "string \<Rightarrow> json \<Rightarrow> ForkPayload \<Rightarrow> json_error + ForkPayload" where
  "ForkPayload_member k v p =
     (if key_is k ''forkee''
      then map_sum id (\<lambda>f. p\<lparr>Forkee := f\<rparr>) (store_struct Forkee_member v (Forkee p))
      else Inr p)"

text \<open>The zero values that \<open>var p T\<close> declares.\<close>

definition zero_PushPayload :: PushPayload where
  "zero_PushPayload = \<lparr>Size = 0\<rparr>"

definition zero_IssuesPayload :: IssuesPayload where
  "zero_IssuesPayload =
     \<lparr>IssuesPayload.Action = [], Issue = \<lparr>Issue_t.Number = 0, Issue_t.Title = []\<rparr>\<rparr>"

definition zero_PRPayload :: PRPayload where
  "zero_PRPayload =
     \<lparr>PRPayload.Action = [],
      PullRequest = \<lparr>PullRequest_t.Number = 0, PullRequest_t.Title = []\<rparr>\<rparr>"

definition zero_WatchPayload :: WatchPayload where
  "zero_WatchPayload = \<lparr>WatchPayload.Action = []\<rparr>"

definition zero_ForkPayload :: ForkPayload where
  "zero_ForkPayload = \<lparr>Forkee = \<lparr>FullName = []\<rparr>\<rparr>"

section \<open>The HTTP exchange and the environment\<close>

text \<open>
  \<open>http.Header\<close> maps canonical keys to the values received. \<open>Header.Get\<close>
  canonicalises the key it is asked for and returns the first value, or the empty
  string.
\<close>

record Response =
  StatusCode :: int
  Status :: string
  Header :: "string \<rightharpoonup> string list"
  Body :: string

datatype http_result =
    NewRequestError string
  | DoError string
  | Responded Response

definition validHeaderFieldByte :: "char \<Rightarrow> bool" where
  "validHeaderFieldByte c =
     ((0x30 \<le> byte c \<and> byte c \<le> 0x39) \<or> (0x41 \<le> byte c \<and> byte c \<le> 0x5A)
      \<or> (0x61 \<le> byte c \<and> byte c \<le> 0x7A) \<or> c \<in> set ''!#$%&*+-.^_`|~'' \<or> byte c = 0x27)"

fun canonical :: "bool \<Rightarrow> string \<Rightarrow> string" where
  "canonical upper [] = []"
| "canonical upper (c # cs) =
     (if upper then ascii_upper c else ascii_lower c) # canonical (c = CHR ''-'') cs"

definition CanonicalMIMEHeaderKey :: "string \<Rightarrow> string" where
  "CanonicalMIMEHeaderKey s = (if list_all validHeaderFieldByte s then canonical True s else s)"

definition Header_Get :: "(string \<rightharpoonup> string list) \<Rightarrow> string \<Rightarrow> string" where
  "Header_Get h key =
     (case h (CanonicalMIMEHeaderKey key) of None \<Rightarrow> [] | Some [] \<Rightarrow> [] | Some (v # _) \<Rightarrow> v)"

text \<open>
  What the program takes from outside itself: the Unicode case tables, \<open>strconv.Quote\<close>
  (the verb \<open>%q\<close>), the rendering \<open>t.Local().Format(time.RFC1123)\<close> in the machine's
  time zone, the outcome of building and sending the GET request for a URL, the JSON
  decoding of a response body into events, and the usage text of package \<open>flag\<close>.
\<close>

record world = case_tables +
  Quote :: "string \<Rightarrow> string"
  Local_Format_RFC1123 :: "Time \<Rightarrow> string"
  Get :: "string \<Rightarrow> http_result"
  Decode :: "string \<Rightarrow> string + Event list"
  Usage :: "string list"

section \<open>The program\<close>

subsection \<open>titleCase and formatEvent\<close>

definition titleCase :: "('a case_tables_scheme) \<Rightarrow> string \<Rightarrow> string" where
  "titleCase L s = (if s = [] then s else ToUpper L (take 1 s) @ ToLower L (drop 1 s))"

text \<open>The quotation marks U+201C and U+201D and the arrow U+2192 of the format strings.\<close>

definition ldquo :: string where
  "ldquo = [CHR 0xE2, CHR 0x80, CHR 0x9C]"

definition rdquo :: string where
  "rdquo = [CHR 0xE2, CHR 0x80, CHR 0x9D]"

definition rarrow :: string where
  "rarrow = [CHR 0xE2, CHR 0x86, CHR 0x92]"

definition formatEvent :: "('a case_tables_scheme) \<Rightarrow> Event \<Rightarrow> string \<times> bool" where
  "formatEvent L ev =
     (let repo = Name (Repo ev) in
      if Type ev = ''PushEvent'' then
        (case Unmarshal PushPayload_member zero_PushPayload (Payload ev) of
           Inl err \<Rightarrow> ([], False)
         | Inr p \<Rightarrow> (''Pushed '' @ FormatInt (Size p) @ '' commit(s) to '' @ repo, True))
      else if Type ev = ''IssuesEvent'' then
        (case Unmarshal IssuesPayload_member zero_IssuesPayload (Payload ev) of
           Inl err \<Rightarrow> ([], False)
         | Inr p \<Rightarrow>
             let action = ToLower L (IssuesPayload.Action p) in
             (titleCase L action @ '' an issue #'' @ FormatInt (Issue_t.Number (Issue p)) @ '' ''
                @ ldquo @ Issue_t.Title (Issue p) @ rdquo @ '' in '' @ repo, True))
      else if Type ev = ''PullRequestEvent'' then
        (case Unmarshal PRPayload_member zero_PRPayload (Payload ev) of
           Inl err \<Rightarrow> ([], False)
         | Inr p \<Rightarrow>
             let action = ToLower L (PRPayload.Action p) in
             (titleCase L action @ '' a pull request #''
                @ FormatInt (PullRequest_t.Number (PullRequest p)) @ '' ''
                @ ldquo @ PullRequest_t.Title (PullRequest p) @ rdquo @ '' in '' @ repo, True))
      else if Type ev = ''WatchEvent'' then
        (case Unmarshal WatchPayload_member zero_WatchPayload (Payload ev) of
           Inl err \<Rightarrow> ([], False)
         | Inr p \<Rightarrow>
             if ToLower L (WatchPayload.Action p) = ''started'' then (''Starred '' @ repo, True)
             else (''Watch event on '' @ repo, True))
      else if Type ev = ''ForkEvent'' then
        (case Unmarshal ForkPayload_member zero_ForkPayload (Payload ev) of
           Inl err \<Rightarrow> ([], False)
         | Inr p \<Rightarrow>
             let target = (if FullName (Forkee p) \<noteq> [] then FullName (Forkee p) else repo) in
             (''Forked '' @ Name (Repo ev) @ '' '' @ rarrow @ '' '' @ target, True))
      else if Type ev = ''CreateEvent'' then (''Created something in '' @ repo, True)
      else if Type ev = ''DeleteEvent'' then (''Deleted something in '' @ repo, True)
      else if Type ev = ''ReleaseEvent'' then (''Published or edited a release in '' @ repo, True)
      else if Type ev = ''PullRequestReviewCommentEvent'' then
        (''Commented on a PR review in '' @ repo, True)
      else if Type ev = ''IssueCommentEvent'' then (''Commented on an issue in '' @ repo, True)
      else ([], False))"

subsection \<open>parseUnix and fetchEvents\<close>

text \<open>
  \<open>rateLimitMessage\<close> is the message that \<open>fetchEvents\<close> builds in its 403 branch from
  the value of the reset header. \<open>fetchEvents\<close> receives the outcome of
  \<open>http.NewRequest\<close> and \<open>http.DefaultClient.Do\<close> for its URL from the world.
\<close>

definition parseUnix :: "string \<Rightarrow> Time \<times> NumError option" where
  "parseUnix s =
     (case ParseInt s of
        Inl err \<Rightarrow> (zeroTime, Some err)
      | Inr sec \<Rightarrow> (Unix sec, None))"

definition eventsURL :: "string \<Rightarrow> string" where
  "eventsURL username = ''https://api.github.com/users/'' @ username @ ''/events''"

definition rateLimitMessage :: "('a world_scheme) \<Rightarrow> string \<Rightarrow> string" where
  "rateLimitMessage W reset =
     (let msg = ''rate limit exceeded; set GITHUB_TOKEN to increase limits'' in
      if reset \<noteq> [] then
        (let ts = fst (parseUnix reset) in
         if \<not> IsZero ts then msg @ '' (resets at '' @ Local_Format_RFC1123 W ts @ '')''
         else msg)
      else msg)"

definition fetchEvents :: "('a world_scheme) \<Rightarrow> string \<Rightarrow> string + Event list" where
  "fetchEvents W username =
     (case Get W (eventsURL username) of
        NewRequestError err \<Rightarrow> Inl err
      | DoError err \<Rightarrow> Inl (''request failed: '' @ err)
      | Responded resp \<Rightarrow>
          if StatusCode resp = 404 then Inl ''user not found''
          else if StatusCode resp = 403
                  \<and> Header_Get (Header resp) ''X-RateLimit-Remaining'' = ''0''
          then Inl (rateLimitMessage W (Header_Get (Header resp) ''X-RateLimit-Reset''))
          else if StatusCode resp < 200 \<or> 300 \<le> StatusCode resp
          then Inl (''github api error: '' @ Status resp @ '': ''
                      @ TrimSpace (take 512 (Body resp)))
          else (case Decode W (Body resp) of
                  Inl err \<Rightarrow> Inl (''decode failed: '' @ err)
                | Inr events \<Rightarrow> Inr events))"

subsection \<open>main\<close>

text \<open>
  The command line after \<open>flag.Parse\<close>: the value of \<open>--type\<close> (empty when not given),
  the value of \<open>--n\<close> when given, and the positional arguments. A command line that
  \<open>flag.Parse\<close> rejects ends the program inside package \<open>flag\<close> and is not an input
  here. The standard output and the standard error are lists of lines.
\<close>

record Flags =
  flag_type :: string
  flag_n :: "int option"
  flag_args :: "string list"

record Outcome =
  stdout :: "string list"
  stderr :: "string list"
  exit_code :: int

definition flag_Int :: "int \<Rightarrow> int option \<Rightarrow> int" where
  "flag_Int dflt given = (case given of None \<Rightarrow> dflt | Some v \<Rightarrow> v)"

definition clampLimit :: "int \<Rightarrow> int" where
  "clampLimit limit =
     (let l1 = (if limit < 1 then 1 else limit) in
      if l1 > 100 then 100 else l1)"

text \<open>
  The \<open>for\<close> loop of \<open>main\<close> over the events still to visit; the state is the lines
  printed so far and \<open>count\<close>.
\<close>

fun loop ::
  "('a case_tables_scheme) \<Rightarrow> string \<Rightarrow> int \<Rightarrow> Event list \<Rightarrow> string list \<times> int \<Rightarrow> string list \<times> int"
where
  "loop L ty limit [] st = st"
| "loop L ty limit (ev # evs) (out, count) =
     (if ty \<noteq> [] \<and> Type ev \<noteq> ty then loop L ty limit evs (out, count)
      else
        (case formatEvent L ev of
           (line, ok) \<Rightarrow>
             if \<not> ok then loop L ty limit evs (out, count)
             else if limit \<le> count + 1 then (out @ [''- '' @ line], count + 1)
             else loop L ty limit evs (out @ [''- '' @ line], count + 1)))"

definition main :: "('a world_scheme) \<Rightarrow> Flags \<Rightarrow> Outcome" where
  "main W fl =
     (let eventType = flag_type fl;
          limit = flag_Int 30 (flag_n fl)
      in
      if length (flag_args fl) \<noteq> 1 then \<lparr>stdout = [], stderr = Usage W, exit_code = 2\<rparr>
      else
        let username = flag_args fl ! 0;
            limit = clampLimit limit
        in case fetchEvents W username of
             Inl err \<Rightarrow> \<lparr>stdout = [], stderr = [''Error: '' @ err], exit_code = 1\<rparr>
           | Inr events \<Rightarrow>
               if length events = 0
               then \<lparr>stdout = [''No recent public activity.''], stderr = [], exit_code = 0\<rparr>
               else
                 (case loop W eventType limit events ([], 0) of
                    (out, count) \<Rightarrow>
                      if count = 0 then
                        (if eventType \<noteq> []
                         then \<lparr>stdout = out @ [''No events of type '' @ Quote W eventType
                                                  @ '' found.''],
                               stderr = [], exit_code = 0\<rparr>
                         else \<lparr>stdout = out @ [''No printable events found.''],
                               stderr = [], exit_code = 0\<rparr>)
                      else \<lparr>stdout = out, stderr = [], exit_code = 0\<rparr>))"

section \<open>Notions used in the statements\<close>

text \<open>
  An event is selected when its tag passes the \<open>--type\<close> filter (an empty filter
  passes every tag) and \<open>formatEvent\<close> returns \<open>true\<close> for it; \<open>line_of\<close> is the line the
  loop prints for it.
\<close>

definition selected :: "('a case_tables_scheme) \<Rightarrow> string \<Rightarrow> Event \<Rightarrow> bool" where
  "selected L ty ev = ((ty = [] \<or> Type ev = ty) \<and> snd (formatEvent L ev))"

definition line_of :: "('a case_tables_scheme) \<Rightarrow> Event \<Rightarrow> string" where
  "line_of L ev = ''- '' @ fst (formatEvent L ev)"

text \<open>
  How many more lines the loop can print when it is entered with \<open>count = c\<close>: the
  test \<open>count >= limit\<close> comes after the increment, so at least one.
\<close>

definition budget :: "int \<Rightarrow> int \<Rightarrow> nat" where
  "budget lim c = nat (max 1 (lim - c))"

text \<open>The tags whose case decodes the payload, and the tags whose case does not.\<close>

definition payload_tags :: "string list" where
  "payload_tags =
     [''PushEvent'', ''IssuesEvent'', ''PullRequestEvent'', ''WatchEvent'', ''ForkEvent'']"

definition generic_tags :: "string list" where
  "generic_tags =
     [''CreateEvent'', ''DeleteEvent'', ''ReleaseEvent'', ''PullRequestReviewCommentEvent'',
      ''IssueCommentEvent'']"

definition generic_line :: "string \<Rightarrow> string \<Rightarrow> string" where
  "generic_line tag repo =
     (if tag = ''CreateEvent'' then ''Created something in '' @ repo
      else if tag = ''DeleteEvent'' then ''Deleted something in '' @ repo
      else if tag = ''ReleaseEvent'' then ''Published or edited a release in '' @ repo
      else if tag = ''PullRequestReviewCommentEvent'' then ''Commented on a PR review in '' @ repo
      else ''Commented on an issue in '' @ repo)"

text \<open>
  \<open>unmarshal_fails\<close>: \<open>json.Unmarshal\<close> into the struct of the event's tag returns an
  error.
\<close>

definition unmarshal_fails :: "Event \<Rightarrow> bool" where
  "unmarshal_fails ev =
     (if Type ev = ''PushEvent''
      then isl (Unmarshal PushPayload_member zero_PushPayload (Payload ev))
      else if Type ev = ''IssuesEvent''
      then isl (Unmarshal IssuesPayload_member zero_IssuesPayload (Payload ev))
      else if Type ev = ''PullRequestEvent''
      then isl (Unmarshal PRPayload_member zero_PRPayload (Payload ev))
      else if Type ev = ''WatchEvent''
      then isl (Unmarshal WatchPayload_member zero_WatchPayload (Payload ev))
      else if Type ev = ''ForkEvent''
      then isl (Unmarshal ForkPayload_member zero_ForkPayload (Payload ev))
      else False)"

text \<open>
  A payload is well formed for its event when it is one JSON value, the value is an
  object or \<open>null\<close>, and every member whose key names a field of the tag's struct
  (up to case folding) carries \<open>null\<close> or a value of the field's kind: for an \<open>int\<close>
  a number whose literal is a decimal integer of the signed 64-bit range, for a
  string a string, for a struct an object or \<open>null\<close> whose members are well formed
  in turn. Members with other keys are not looked at, and no member has to be
  there. A malformed payload is one that is not well formed.
\<close>

definition int_ok :: "json \<Rightarrow> bool" where
  "int_ok v = (case v of JNull \<Rightarrow> True | JNumber lit \<Rightarrow> \<not> isl (ParseInt lit) | _ \<Rightarrow> False)"

definition string_ok :: "json \<Rightarrow> bool" where
  "string_ok v = (case v of JNull \<Rightarrow> True | JString s \<Rightarrow> True | _ \<Rightarrow> False)"

definition object_ok :: "(string \<Rightarrow> json \<Rightarrow> bool) \<Rightarrow> json \<Rightarrow> bool" where
  "object_ok member_ok v =
     (case v of
        JNull \<Rightarrow> True
      | JObject kvs \<Rightarrow> list_all (\<lambda>(k, x). member_ok k x) kvs
      | _ \<Rightarrow> False)"

definition push_member_ok :: "string \<Rightarrow> json \<Rightarrow> bool" where
  "push_member_ok k v = (if key_is k ''size'' then int_ok v else True)"

definition numbered_member_ok :: "string \<Rightarrow> json \<Rightarrow> bool" where
  "numbered_member_ok k v =
     (if key_is k ''number'' then int_ok v else if key_is k ''title'' then string_ok v else True)"

definition issues_member_ok :: "string \<Rightarrow> json \<Rightarrow> bool" where
  "issues_member_ok k v =
     (if key_is k ''action'' then string_ok v
      else if key_is k ''issue'' then object_ok numbered_member_ok v
      else True)"

definition pr_member_ok :: "string \<Rightarrow> json \<Rightarrow> bool" where
  "pr_member_ok k v =
     (if key_is k ''action'' then string_ok v
      else if key_is k ''pull_request'' then object_ok numbered_member_ok v
      else True)"

definition watch_member_ok :: "string \<Rightarrow> json \<Rightarrow> bool" where
  "watch_member_ok k v = (if key_is k ''action'' then string_ok v else True)"

definition forkee_member_ok :: "string \<Rightarrow> json \<Rightarrow> bool" where
  "forkee_member_ok k v = (if key_is k ''full_name'' then string_ok v else True)"

definition fork_member_ok :: "string \<Rightarrow> json \<Rightarrow> bool" where
  "fork_member_ok k v = (if key_is k ''forkee'' then object_ok forkee_member_ok v else True)"

definition payload_ok :: "Event \<Rightarrow> bool" where
  "payload_ok ev =
     (case Payload ev of
        None \<Rightarrow> False
      | Some v \<Rightarrow>
          if Type ev = ''PushEvent'' then object_ok push_member_ok v
          else if Type ev = ''IssuesEvent'' then object_ok issues_member_ok v
          else if Type ev = ''PullRequestEvent'' then object_ok pr_member_ok v
          else if Type ev = ''WatchEvent'' then object_ok watch_member_ok v
          else if Type ev = ''ForkEvent'' then object_ok fork_member_ok v
          else True)"

definition payload_malformed :: "Event \<Rightarrow> bool" where
  "payload_malformed ev = (\<not> payload_ok ev)"

text \<open>
  The time annotation of the rate-limit message, as a function of the value of the
  \<open>X-RateLimit-Reset\<close> header (empty when the header is absent).
\<close>

definition annotation :: "('a world_scheme) \<Rightarrow> string \<Rightarrow> string" where
  "annotation W reset =
     (case ParseInt reset of
        Inl err \<Rightarrow> []
      | Inr sec \<Rightarrow>
          if sec = - 62135596800 then []
          else '' (resets at '' @ Local_Format_RFC1123 W (Unix sec) @ '')'')"

text \<open>
  Title case as the specification words it: the first character (the first rune of
  the string) in upper case, the remainder in lower case.
\<close>

definition titleCase_spec :: "('a case_tables_scheme) \<Rightarrow> string \<Rightarrow> string" where
  "titleCase_spec L s =
     (case s of
        [] \<Rightarrow> []
      | c # cs \<Rightarrow>
          ToUpper L (take (snd (DecodeRune c cs)) s) @ ToLower L (drop (snd (DecodeRune c cs)) s))"

section \<open>Sample inputs\<close>

text \<open>
  Case tables that hold the entries of the Unicode tables for U+00E9 and U+00C9 (e
  and E with acute accent) and leave every other rune outside ASCII as it is, as
  Unicode does for U+FFFD.
\<close>

definition sample_tables :: case_tables where
  "sample_tables =
     \<lparr>To_UpperCase = (\<lambda>r. if r = 0xE9 then 0xC9 else r),
      To_LowerCase = (\<lambda>r. if r = 0xC9 then 0xE9 else r)\<rparr>"

definition dquote :: string where
  "dquote = [CHR 0x22]"

definition event :: "string \<Rightarrow> string \<Rightarrow> json option \<Rightarrow> Event" where
  "event tag repo payload =
     \<lparr>Type = tag, CreatedAt = zeroTime, Repo = \<lparr>Name = repo\<rparr>, Payload = payload\<rparr>"

definition issues_payload :: json where
  "issues_payload =
     JObject [(''action'', JString ''opened''),
              (''issue'', JObject [(''number'', JNumber ''42''), (''title'', JString ''Bug'')])]"

definition fork_payload :: "string \<Rightarrow> json" where
  "fork_payload full_name = JObject [(''forkee'', JObject [(''full_name'', JString full_name)])]"

definition sample_events :: "Event list" where
  "sample_events =
     [event ''PushEvent'' ''alice/repo'' (Some (JObject [(''size'', JNumber ''3'')])),
      event ''GollumEvent'' ''alice/wiki'' None,
      event ''PushEvent'' ''bob/tool'' (Some (JObject [(''size'', JString ''3'')])),
      event ''WatchEvent'' ''golang/go'' (Some (JObject [(''action'', JString ''started'')])),
      event ''CreateEvent'' ''alice/new'' None]"

definition response :: "int \<Rightarrow> string \<Rightarrow> (string \<times> string) list \<Rightarrow> string \<Rightarrow> Response" where
  "response code status headers body =
     \<lparr>StatusCode = code, Status = status,
      Header = map_of (map (\<lambda>(k, v). (k, [v])) headers), Body = body\<rparr>"

text \<open>
  A world whose server answers every request with \<open>result\<close> and whose body decoder
  yields \<open>events\<close>. Its \<open>Quote\<close> is \<open>strconv.Quote\<close> on printable ASCII without quotes
  and backslashes; its clock text is a placeholder.
\<close>

definition sample_world :: "http_result \<Rightarrow> Event list \<Rightarrow> world" where
  "sample_world result events =
     \<lparr>To_UpperCase = (\<lambda>r. if r = 0xE9 then 0xC9 else r),
      To_LowerCase = (\<lambda>r. if r = 0xC9 then 0xE9 else r),
      Quote = (\<lambda>s. dquote @ s @ dquote),
      Local_Format_RFC1123 = (\<lambda>t. ''LOCAL-TIME''),
      Get = (\<lambda>url. result),
      Decode = (\<lambda>body. Inr events),
      Usage = [''Usage: github-activity [options] <github-username>'']\<rparr>"

definition ok_response :: http_result where
  "ok_response = Responded (response 200 ''200 OK'' [] ''[]'')"

definition rate_limited_response :: "string \<Rightarrow> http_result" where
  "rate_limited_response reset =
     Responded (response 403 ''403 Forbidden''
       [(''X-Ratelimit-Remaining'', ''0''), (''X-Ratelimit-Reset'', reset)]
       (''forbidden'' @ [CHR 0x0A]))"

definition bad_gateway_response :: http_result where
  "bad_gateway_response =
     Responded (response 502 ''502 Bad Gateway'' [] (''bad gateway'' @ [CHR 0x0A]))"

definition flags :: "string \<Rightarrow> int option \<Rightarrow> string list \<Rightarrow> Flags" where
  "flags ty given rest = \<lparr>flag_type = ty, flag_n = given, flag_args = rest\<rparr>"

section \<open>Lemmas\<close>

lemma chr_eq_iff: "chr m = c \<longleftrightarrow> m mod 256 = byte c"
  by (simp add: chr_def byte_def char_of_eq_iff take_bit_eq_mod)

lemma eq_chr_iff: "c = chr m \<longleftrightarrow> m mod 256 = byte c"
  using chr_eq_iff [of m c] by auto

lemmas string_eval =
  byte_def chr_eq_iff eq_chr_iff RuneSelf_def isASCII_def ascii_upper_def ascii_lower_def
  ToUpper_def ToLower_def titleCase_def FormatInt_def natDigits.simps
  ParseInt_def isDigit_def digitsVal_def

lemmas unmarshal_eval =
  Unmarshal_def store_struct_def store_string_def store_int_def key_is_def
  PushPayload_member_def Issue_member_def IssuesPayload_member_def PullRequest_member_def
  PRPayload_member_def WatchPayload_member_def Forkee_member_def ForkPayload_member_def
  zero_PushPayload_def zero_IssuesPayload_def zero_PRPayload_def zero_WatchPayload_def
  zero_ForkPayload_def

lemmas utf8_eval =
  strings_Map_def DecodeRune_def runeSize_def acceptRange_def cont_def RuneError_def
  unicode_ToUpper_def unicode_ToLower_def EncodeRune_def

subsection \<open>The selection loop\<close>

lemma budget_stop: "lim \<le> c + 1 \<Longrightarrow> budget lim c = Suc 0"
  by (auto simp: budget_def)

lemma budget_step: "\<not> lim \<le> c + 1 \<Longrightarrow> budget lim c = Suc (budget lim (c + 1))"
  by (auto simp: budget_def)

lemma budget_start: "1 \<le> lim \<Longrightarrow> budget lim 0 = nat lim"
  by (simp add: budget_def)

text \<open>
  The loop prints the lines of the first \<open>budget\<close> selected events, in order, and
  counts them.
\<close>

lemma loop_take_filter:
  "loop L ty lim evs (out, c) =
     (out @ map (line_of L) (take (budget lim c) (filter (selected L ty) evs)),
      c + int (length (take (budget lim c) (filter (selected L ty) evs))))"
proof (induction evs arbitrary: out c)
  case Nil
  show ?case by simp
next
  case (Cons ev evs)
  show ?case
  proof (cases "selected L ty ev")
    case False
    then show ?thesis
      using Cons.IH [of out c]
      by (auto simp: selected_def split: prod.splits)
  next
    case True
    obtain line ok where fe: "formatEvent L ev = (line, ok)" by (cases "formatEvent L ev")
    with True have ok: ok and sel: "ty = [] \<or> Type ev = ty" by (auto simp: selected_def)
    show ?thesis
    proof (cases "lim \<le> c + 1")
      case le: True
      with True fe ok sel show ?thesis
        by (auto simp: line_of_def budget_stop)
    next
      case gt: False
      have "loop L ty lim (ev # evs) (out, c) = loop L ty lim evs (out @ [''- '' @ line], c + 1)"
        using fe ok sel gt by auto
      also have "\<dots> =
          ((out @ [''- '' @ line])
             @ map (line_of L) (take (budget lim (c + 1)) (filter (selected L ty) evs)),
           (c + 1) + int (length (take (budget lim (c + 1)) (filter (selected L ty) evs))))"
        by (rule Cons.IH)
      also have "\<dots> =
          (out @ map (line_of L) (take (budget lim c) (filter (selected L ty) (ev # evs))),
           c + int (length (take (budget lim c) (filter (selected L ty) (ev # evs)))))"
        using True fe by (simp add: budget_step [OF gt] line_of_def)
      finally show ?thesis .
    qed
  qed
qed

lemma loop_count:
  "snd (loop L ty lim evs ([], 0)) = int (length (fst (loop L ty lim evs ([], 0))))"
  by (simp add: loop_take_filter)

lemma clampLimit_eq: "clampLimit v = max 1 (min 100 v)"
  by (simp add: clampLimit_def Let_def)

lemma sample_events_lines:
  "map (\<lambda>ev. formatEvent L ev) sample_events =
     [(''Pushed 3 commit(s) to alice/repo'', True), ([], False), ([], False),
      (''Starred golang/go'', True), (''Created something in alice/new'', True)]"
  by (simp add: sample_events_def event_def formatEvent_def unmarshal_eval string_eval)

subsection \<open>parseUnix and the zero time\<close>

lemma ParseInt_range:
  assumes "ParseInt s = Inr sec"
  shows "- (2 ^ 63) \<le> sec \<and> sec < 2 ^ 63"
proof -
  define ds where "ds = (if hd s = CHR ''+'' \<or> hd s = CHR ''-'' then tl s else s)"
  define un where "un = digitsVal ds"
  from assms have "sec = (if hd s = CHR ''-'' then - int un else int un)"
    and "\<not> (hd s \<noteq> CHR ''-'' \<and> 2 ^ 63 \<le> un)"
    and "\<not> (hd s = CHR ''-'' \<and> 2 ^ 63 < un)"
    by (auto simp: ParseInt_def Let_def ds_def un_def split: if_splits)
  then show ?thesis
    by (cases "hd s = CHR ''-''") (auto simp: not_le not_less)
qed

lemma unixToInternal_value: "unixToInternal = 62135596800"
  by (simp add: unixToInternal_def)

text \<open>
  Among the seconds that fit 64 bits, \<open>time.Unix\<close> gives the zero time for exactly
  one: the first second of year 1.
\<close>

lemma IsZero_Unix:
  assumes "- (2 ^ 63) \<le> sec" and "sec < 2 ^ 63"
  shows "IsZero (Unix sec) \<longleftrightarrow> sec = - 62135596800"
proof -
  have w: "(word_of_int sec + 62135596800 :: 64 word) = word_of_int (sec + 62135596800)"
    by simp
  have "IsZero (Unix sec) \<longleftrightarrow> (word_of_int sec + 62135596800 :: 64 word) = 0"
    by (simp add: IsZero_def Unix_def unixToInternal_value)
  also have "\<dots> \<longleftrightarrow> (word_of_int (sec + 62135596800) :: 64 word) = 0"
    by (simp only: w)
  also have "\<dots> \<longleftrightarrow> (2 :: int) ^ LENGTH(64) dvd sec + 62135596800"
    by (rule word_of_int_eq_0_iff)
  also have "\<dots> \<longleftrightarrow> (2 :: int) ^ 64 dvd sec + 62135596800"
    by simp
  also have "\<dots> \<longleftrightarrow> sec + 62135596800 = 0"
  proof
    assume "(2 :: int) ^ 64 dvd sec + 62135596800"
    then obtain k where k: "sec + 62135596800 = 2 ^ 64 * k" by (auto simp: dvd_def)
    have "k = 0"
    proof (rule ccontr)
      assume "k \<noteq> 0"
      then consider "k \<le> - 1" | "1 \<le> k" by linarith
      then show False
      proof cases
        case 1
        then have "(2 :: int) ^ 64 * k \<le> - (2 ^ 64)" by simp
        with k assms show False by simp
      next
        case 2
        then have "(2 :: int) ^ 64 \<le> 2 ^ 64 * k" by simp
        with k assms show False by simp
      qed
    qed
    with k show "sec + 62135596800 = 0" by simp
  next
    assume "sec + 62135596800 = 0"
    then show "(2 :: int) ^ 64 dvd sec + 62135596800" by simp
  qed
  also have "\<dots> \<longleftrightarrow> sec = - 62135596800" by linarith
  finally show ?thesis .
qed

lemma rateLimitMessage_eq:
  "rateLimitMessage W reset =
     ''rate limit exceeded; set GITHUB_TOKEN to increase limits'' @ annotation W reset"
proof (cases "ParseInt reset")
  case (Inl err)
  then show ?thesis
    by (simp add: rateLimitMessage_def annotation_def parseUnix_def IsZero_def zeroTime_def
          Let_def)
next
  case (Inr sec)
  then have ne: "reset \<noteq> []" by (auto simp: ParseInt_def)
  from Inr have "IsZero (Unix sec) \<longleftrightarrow> sec = - 62135596800"
    using ParseInt_range [OF Inr] by (intro IsZero_Unix) auto
  with Inr ne show ?thesis
    by (simp add: rateLimitMessage_def annotation_def parseUnix_def Let_def)
qed

lemma canonical_keys:
  "CanonicalMIMEHeaderKey ''X-RateLimit-Remaining'' = ''X-Ratelimit-Remaining''"
  "CanonicalMIMEHeaderKey ''X-RateLimit-Reset'' = ''X-Ratelimit-Reset''"
  by (simp_all add: CanonicalMIMEHeaderKey_def validHeaderFieldByte_def byte_def
        ascii_upper_def ascii_lower_def chr_eq_iff)

lemmas world_eval =
  sample_world_def response_def fetchEvents_def Header_Get_def canonical_keys eventsURL_def
  flags_def

subsection \<open>titleCase on a string that starts with an ASCII byte\<close>

lemma titleCase_ascii_first:
  assumes "s \<noteq> []" and "byte (hd s) < RuneSelf"
  shows "titleCase L s = ascii_upper (hd s) # ToLower L (tl s)"
    and "titleCase L s = titleCase_spec L s"
  using assms
  by (cases s; simp add: titleCase_def titleCase_spec_def ToUpper_def isASCII_def
        DecodeRune_def runeSize_def RuneSelf_def Let_def)+

lemma titleCase_examples:
  "titleCase L ''CLOSED'' = ''Closed''"
  "titleCase L ''opened'' = ''Opened''"
  "titleCase L [] = []"
  by (simp_all add: string_eval)

subsection \<open>Malformed payloads are the ones json.Unmarshal rejects\<close>

lemma store_int_fails: "isl (store_int v cur) \<longleftrightarrow> \<not> int_ok v"
  by (cases v) (auto simp: store_int_def int_ok_def split: sum.splits)

lemma store_string_fails: "isl (store_string v cur) \<longleftrightarrow> \<not> string_ok v"
  by (cases v) (auto simp: store_string_def string_ok_def)

lemma isl_map_sum: "isl (map_sum f g x) = isl x"
  by (cases x) simp_all

lemma store_members_fails:
  assumes "\<And>k v p. isl (f k v p) \<longleftrightarrow> \<not> ok k v"
  shows "isl (store_members f kvs p) \<longleftrightarrow> \<not> list_all (\<lambda>(k, x). ok k x) kvs"
proof (induction kvs arbitrary: p)
  case Nil
  show ?case by simp
next
  case (Cons kv kvs)
  obtain k v where kv: "kv = (k, v)" by (cases kv)
  show ?case
  proof (cases "f k v p")
    case (Inl e)
    then have "isl (f k v p)" by simp
    with assms have "\<not> ok k v" by simp
    with Inl kv show ?thesis by simp
  next
    case (Inr p')
    then have "\<not> isl (f k v p)" by simp
    with assms have "ok k v" by simp
    with Inr kv Cons.IH [of p'] show ?thesis by simp
  qed
qed

lemma store_struct_fails:
  assumes "\<And>k v p. isl (f k v p) \<longleftrightarrow> \<not> ok k v"
  shows "isl (store_struct f v p) \<longleftrightarrow> \<not> object_ok ok v"
  using store_members_fails [of f ok, OF assms]
  by (cases v) (simp_all add: store_struct_def object_ok_def)

lemma PushPayload_member_fails: "isl (PushPayload_member k v p) \<longleftrightarrow> \<not> push_member_ok k v"
  by (simp add: PushPayload_member_def push_member_ok_def isl_map_sum store_int_fails)

lemma Issue_member_fails: "isl (Issue_member k v p) \<longleftrightarrow> \<not> numbered_member_ok k v"
  by (simp add: Issue_member_def numbered_member_ok_def isl_map_sum store_int_fails
        store_string_fails)

lemma PullRequest_member_fails: "isl (PullRequest_member k v p) \<longleftrightarrow> \<not> numbered_member_ok k v"
  by (simp add: PullRequest_member_def numbered_member_ok_def isl_map_sum store_int_fails
        store_string_fails)

lemma IssuesPayload_member_fails: "isl (IssuesPayload_member k v p) \<longleftrightarrow> \<not> issues_member_ok k v"
  by (simp add: IssuesPayload_member_def issues_member_ok_def isl_map_sum store_string_fails
        store_struct_fails [of Issue_member numbered_member_ok, OF Issue_member_fails])

lemma PRPayload_member_fails: "isl (PRPayload_member k v p) \<longleftrightarrow> \<not> pr_member_ok k v"
  by (simp add: PRPayload_member_def pr_member_ok_def isl_map_sum store_string_fails
        store_struct_fails [of PullRequest_member numbered_member_ok, OF PullRequest_member_fails])

lemma WatchPayload_member_fails: "isl (WatchPayload_member k v p) \<longleftrightarrow> \<not> watch_member_ok k v"
  by (simp add: WatchPayload_member_def watch_member_ok_def isl_map_sum store_string_fails)

lemma Forkee_member_fails: "isl (Forkee_member k v p) \<longleftrightarrow> \<not> forkee_member_ok k v"
  by (simp add: Forkee_member_def forkee_member_ok_def isl_map_sum store_string_fails)

lemma ForkPayload_member_fails: "isl (ForkPayload_member k v p) \<longleftrightarrow> \<not> fork_member_ok k v"
  by (simp add: ForkPayload_member_def fork_member_ok_def isl_map_sum
        store_struct_fails [of Forkee_member forkee_member_ok, OF Forkee_member_fails])

lemma Unmarshal_fails:
  assumes "\<And>k v p. isl (f k v p) \<longleftrightarrow> \<not> ok k v"
  shows "isl (Unmarshal f zero data) \<longleftrightarrow> (case data of None \<Rightarrow> True | Some v \<Rightarrow> \<not> object_ok ok v)"
  using store_struct_fails [of f ok, OF assms]
  by (cases data) (simp_all add: Unmarshal_def)

text \<open>For the five tags, \<open>json.Unmarshal\<close> returns an error exactly on the malformed payloads.\<close>

lemma unmarshal_fails_iff:
  assumes "Type ev \<in> set payload_tags"
  shows "unmarshal_fails ev \<longleftrightarrow> payload_malformed ev"
  using assms
  by (auto simp: payload_tags_def unmarshal_fails_def payload_malformed_def payload_ok_def
        Unmarshal_fails [of PushPayload_member push_member_ok, OF PushPayload_member_fails]
        Unmarshal_fails [of IssuesPayload_member issues_member_ok, OF IssuesPayload_member_fails]
        Unmarshal_fails [of PRPayload_member pr_member_ok, OF PRPayload_member_fails]
        Unmarshal_fails [of WatchPayload_member watch_member_ok, OF WatchPayload_member_fails]
        Unmarshal_fails [of ForkPayload_member fork_member_ok, OF ForkPayload_member_fails]
        split: option.splits)

lemma well_formed_payload_formatted:
  assumes "Type ev \<in> set payload_tags" and "\<not> payload_malformed ev"
  shows "snd (formatEvent L ev)"
proof -
  from assms have "\<not> unmarshal_fails ev" by (simp add: unmarshal_fails_iff)
  with assms(1) show ?thesis
    by (auto simp: payload_tags_def unmarshal_fails_def formatEvent_def Let_def
          split: sum.splits)
qed

subsection \<open>What strings.TrimSpace returns\<close>

lemma TrimLeftSpace_suffix: "suffix (TrimLeftSpace s) s"
proof (induction s rule: TrimLeftSpace.induct)
  case 1
  show ?case by simp
next
  case (2 c cs)
  show ?case
  proof (cases "IsSpace (fst (DecodeRune c cs))")
    case True
    with 2 have "suffix (TrimLeftSpace (c # cs)) (drop (snd (DecodeRune c cs) - 1) cs)"
      by simp
    also have "suffix \<dots> cs" by (rule suffix_drop)
    also have "suffix cs (c # cs)" by (simp add: suffix_Cons)
    finally show ?thesis .
  next
    case False
    then show ?thesis by simp
  qed
qed

lemma TrimRightSpace_prefix: "prefix (TrimRightSpace s) s"
  by (simp add: TrimRightSpace_def take_is_prefix split: option.splits)

lemma rev_dropWhile_prefix: "prefix (rev (dropWhile P (rev s))) s"
proof -
  have "suffix (dropWhile P (rev s)) (rev s)" by (rule suffix_dropWhile)
  then have "prefix (rev (dropWhile P (rev s))) (rev (rev s))"
    by (simp only: suffix_to_prefix)
  then show ?thesis by simp
qed

lemma TrimSpace_sublist: "sublist (TrimSpace s) s"
proof -
  define s1 where "s1 = dropWhile asciiSpace s"
  define r where "r = dropWhile asciiSpace (rev s1)"
  have s1: "suffix s1 s" unfolding s1_def by (rule suffix_dropWhile)
  have r: "prefix (rev r) s1" unfolding r_def by (rule rev_dropWhile_prefix)
  have a: "sublist (TrimFunc_IsSpace s1) s"
  proof -
    have "prefix (TrimFunc_IsSpace s1) (TrimLeftSpace s1)"
      unfolding TrimFunc_IsSpace_def by (rule TrimRightSpace_prefix)
    then have "sublist (TrimFunc_IsSpace s1) (TrimLeftSpace s1)" by (rule prefix_imp_sublist)
    moreover have "sublist (TrimLeftSpace s1) s1"
      by (rule suffix_imp_sublist) (rule TrimLeftSpace_suffix)
    moreover have "sublist s1 s" using s1 by (rule suffix_imp_sublist)
    ultimately show ?thesis by (meson sublist_order.order_trans)
  qed
  have b: "sublist (rev r) s"
    using r s1 by (meson prefix_imp_sublist suffix_imp_sublist sublist_order.order_trans)
  have c: "sublist (TrimRightSpace (rev r)) s"
    using TrimRightSpace_prefix [of "rev r"] b
    by (meson prefix_imp_sublist sublist_order.order_trans)
  show ?thesis
    using a b c by (simp add: TrimSpace_def Let_def s1_def r_def)
qed


lemma asciiSpace_IsSpace: "asciiSpace c \<Longrightarrow> byte c < RuneSelf \<and> IsSpace (byte c)"
  by (auto simp: asciiSpace_def IsSpace_def RuneSelf_def)

lemma DecodeRune_ascii: "byte c < RuneSelf \<Longrightarrow> DecodeRune c cs = (byte c, 1)"
  by (simp add: DecodeRune_def runeSize_def RuneSelf_def)

lemma TrimLeftSpace_hd: "TrimLeftSpace s = [] \<or> \<not> asciiSpace (hd (TrimLeftSpace s))"
proof (induction s rule: TrimLeftSpace.induct)
  case 1
  show ?case by simp
next
  case (2 c cs)
  show ?case
  proof (cases "IsSpace (fst (DecodeRune c cs))")
    case True
    with 2 show ?thesis by simp
  next
    case False
    have "\<not> asciiSpace c"
    proof
      assume "asciiSpace c"
      then have "byte c < RuneSelf" and "IsSpace (byte c)"
        using asciiSpace_IsSpace by auto
      with False show False by (simp add: DecodeRune_ascii)
    qed
    with False show ?thesis by simp
  qed
qed

text \<open>The bytes after the first of a rune that decodes with width above 1 are not ASCII.\<close>

lemma acceptRange_lo: "RuneSelf \<le> fst (acceptRange s0)"
  by (simp add: acceptRange_def RuneSelf_def)

lemma runeSize_cases: "runeSize s0 \<in> {0, 1, 2, 3, 4}"
  by (simp add: runeSize_def)

lemma DecodeRune_wide:
  assumes "2 \<le> snd (DecodeRune c cs)"
  shows "snd (DecodeRune c cs) - 1 \<le> length cs
         \<and> RuneSelf \<le> byte (cs ! (snd (DecodeRune c cs) - 2))"
proof -
  define sz where "sz = runeSize (byte c)"
  have lo: "RuneSelf \<le> fst (acceptRange (byte c))" by (rule acceptRange_lo)
  have sz: "sz = 0 \<or> sz = 1 \<or> sz = 2 \<or> sz = 3 \<or> sz = 4"
    using runeSize_cases [of "byte c"] by (simp add: sz_def)
  then show ?thesis
  proof (elim disjE)
    assume "sz = 0"
    with assms show ?thesis by (simp add: DecodeRune_def Let_def sz_def [symmetric])
  next
    assume "sz = 1"
    with assms show ?thesis by (simp add: DecodeRune_def Let_def sz_def [symmetric])
  next
    assume "sz = 2"
    with assms lo show ?thesis
      by (simp add: DecodeRune_def Let_def sz_def [symmetric] Suc_le_eq split: if_splits)
  next
    assume "sz = 3"
    with assms lo show ?thesis
      by (simp add: DecodeRune_def Let_def sz_def [symmetric] cont_def RuneSelf_def Suc_le_eq
            split: if_splits)
  next
    assume "sz = 4"
    with assms lo show ?thesis
      by (simp add: DecodeRune_def Let_def sz_def [symmetric] cont_def RuneSelf_def Suc_le_eq
            split: if_splits)
  qed
qed


lemma DecodeLastRuneInString_start:
  assumes "s \<noteq> []"
  defines "i \<equiv> length s - snd (DecodeLastRuneInString s)"
  shows "i < length s"
    and "byte (s ! i) < RuneSelf \<Longrightarrow> fst (DecodeLastRuneInString s) = byte (s ! i)"
proof -
  have w: "1 \<le> snd (DecodeLastRuneInString s)"
    using assms(1) by (rule DecodeLastRuneInString_width)
  from assms(1) have n: "0 < length s" by simp
  with w show "i < length s" by (simp add: i_def)
  assume ascii: "byte (s ! i) < RuneSelf"
  show "fst (DecodeLastRuneInString s) = byte (s ! i)"
  proof (cases "byte (s ! (length s - 1)) < RuneSelf")
    case True
    with n show ?thesis by (simp add: i_def DecodeLastRuneInString_def Let_def)
  next
    case last: False
    show ?thesis
    proof (cases "length s = 1")
      case True
      with last n ascii show ?thesis by (simp add: i_def DecodeLastRuneInString_def Let_def)
    next
      case False
      define start where "start =
        (case lastStart s (length s - 4) (length s - 2) of
           Some i \<Rightarrow> i
         | None \<Rightarrow> (if length s - 4 = 0 then 0 else length s - 4 - 1))"
      define d where "d = DecodeRuneInString (drop start s)"
      have unfold: "DecodeLastRuneInString s =
          (if start + snd d \<noteq> length s then (RuneError, 1) else d)"
        using n last False
        by (simp add: DecodeLastRuneInString_def Let_def start_def d_def)
      show ?thesis
      proof (cases "start + snd d \<noteq> length s")
        case True
        with unfold have "i = length s - 1" by (simp add: i_def)
        with last ascii show ?thesis by simp
      next
        case fits: False
        with unfold have res: "DecodeLastRuneInString s = d" by simp
        with fits w have i: "i = start" and lt: "start < length s" by (auto simp: i_def)
        from lt have dr: "drop start s = s ! start # drop (Suc start) s"
          by (simp add: Cons_nth_drop_Suc)
        with ascii i have "d = (byte (s ! start), 1)"
          by (simp add: d_def DecodeRuneInString_def DecodeRune_ascii)
        with res i show ?thesis by simp
      qed
    qed
  qed
qed

lemma lastIndexNotSpace_Some:
  "lastIndexNotSpace s = Some i \<Longrightarrow>
     i < length s \<and> (byte (s ! i) < RuneSelf \<longrightarrow> \<not> IsSpace (byte (s ! i)))"
proof (induction s rule: lastIndexNotSpace.induct)
  case (1 s)
  from "1.prems" have ne: "s \<noteq> []"
    by (auto simp: lastIndexNotSpace.simps [of s] split: if_splits)
  define k where "k = length s - snd (DecodeLastRuneInString s)"
  have k: "k < length s"
    and asc: "byte (s ! k) < RuneSelf \<Longrightarrow> fst (DecodeLastRuneInString s) = byte (s ! k)"
    using DecodeLastRuneInString_start [OF ne] by (simp_all add: k_def)
  show ?case
  proof (cases "IsSpace (fst (DecodeLastRuneInString s))")
    case True
    with "1.prems" ne have rec: "lastIndexNotSpace (take k s) = Some i"
      by (simp add: lastIndexNotSpace.simps [of s] k_def)
    have ih: "i < length (take k s)
        \<and> (byte (take k s ! i) < RuneSelf \<longrightarrow> \<not> IsSpace (byte (take k s ! i)))"
      using "1.IH" [OF ne True] rec unfolding k_def by blast
    with k have ik: "i < k" by simp
    then have "take k s ! i = s ! i" by simp
    with ih ik k show ?thesis by simp
  next
    case False
    with "1.prems" ne have "i = k"
      by (simp add: lastIndexNotSpace.simps [of s] k_def)
    with k asc False show ?thesis by auto
  qed
qed

lemma TrimRightSpace_last:
  "TrimRightSpace s = [] \<or> \<not> asciiSpace (last (TrimRightSpace s))"
proof (cases "lastIndexNotSpace s")
  case None
  then show ?thesis by (simp add: TrimRightSpace_def)
next
  case (Some i)
  then have i: "i < length s"
    and asc: "byte (s ! i) < RuneSelf \<longrightarrow> \<not> IsSpace (byte (s ! i))"
    using lastIndexNotSpace_Some by auto
  show ?thesis
  proof (cases "RuneSelf \<le> byte (s ! i)")
    case False
    with Some have res: "TrimRightSpace s = take (i + 1) s" by (simp add: TrimRightSpace_def)
    with i have "last (TrimRightSpace s) = s ! i"
      by (simp add: take_Suc_conv_app_nth)
    moreover have "\<not> asciiSpace (s ! i)"
      using False asc asciiSpace_IsSpace by auto
    ultimately show ?thesis by simp
  next
    case True
    from i have dr: "drop i s = s ! i # drop (Suc i) s" by (simp add: Cons_nth_drop_Suc)
    define w where "w = snd (DecodeRune (s ! i) (drop (Suc i) s))"
    from True Some dr have res: "TrimRightSpace s = take (i + w) s"
      by (simp add: TrimRightSpace_def DecodeRuneInString_def w_def)
    have w1: "1 \<le> w" using DecodeRune_width by (simp add: w_def)
    show ?thesis
    proof (cases "w = 1")
      case True
      with res i have "last (TrimRightSpace s) = s ! i"
        by (simp add: take_Suc_conv_app_nth)
      moreover have "\<not> asciiSpace (s ! i)"
        using \<open>RuneSelf \<le> byte (s ! i)\<close> asciiSpace_IsSpace by fastforce
      ultimately show ?thesis by simp
    next
      case False
      with w1 have w2: "2 \<le> w" by simp
      from DecodeRune_wide [of "s ! i" "drop (Suc i) s"] w2
      have len: "w - 1 \<le> length (drop (Suc i) s)"
        and hi: "RuneSelf \<le> byte (drop (Suc i) s ! (w - 2))"
        by (simp_all add: w_def)
      from len i w2 have le: "i + w \<le> length s" by simp
      from w2 have "i + w = Suc (i + w - 1)" by simp
      with le have "take (i + w) s = take (i + w - 1) s @ [s ! (i + w - 1)]"
        by (metis Suc_le_lessD take_Suc_conv_app_nth)
      with res have "last (TrimRightSpace s) = s ! (i + w - 1)" by simp
      moreover have "drop (Suc i) s ! (w - 2) = s ! (i + w - 1)"
      proof -
        have e: "Suc i + (w - 2) = i + w - 1" using w2 by arith
        have "drop (Suc i) s ! (w - 2) = s ! (Suc i + (w - 2))"
          using le w2 by (intro nth_drop) arith
        then show ?thesis by (simp only: e)
      qed
      ultimately have "RuneSelf \<le> byte (last (TrimRightSpace s))" using hi by simp
      then show ?thesis using asciiSpace_IsSpace by fastforce
    qed
  qed
qed


lemma prefix_hd: "prefix xs ys \<Longrightarrow> xs \<noteq> [] \<Longrightarrow> hd xs = hd ys"
  by (auto simp: prefix_def)

lemma dropWhile_hd: "dropWhile P xs = [] \<or> \<not> P (hd (dropWhile P xs))"
  using hd_dropWhile [of P xs] by blast

text \<open>
  What \<open>strings.TrimSpace\<close> returns is a contiguous part of its argument that neither
  starts nor ends with an ASCII white-space byte.
\<close>

lemma TrimSpace_ends:
  "TrimSpace s = [] \<or> (\<not> asciiSpace (hd (TrimSpace s)) \<and> \<not> asciiSpace (last (TrimSpace s)))"
proof -
  define s1 where "s1 = dropWhile asciiSpace s"
  define r where "r = dropWhile asciiSpace (rev s1)"
  have hd_s1: "s1 = [] \<or> \<not> asciiSpace (hd s1)" unfolding s1_def by (rule dropWhile_hd)
  have hd_r: "r = [] \<or> \<not> asciiSpace (hd r)" unfolding r_def by (rule dropWhile_hd)
  have pre: "prefix (rev r) s1" unfolding r_def by (rule rev_dropWhile_prefix)
  have ts: "TrimSpace s =
      (if s1 \<noteq> [] \<and> RuneSelf \<le> byte (hd s1) then TrimRightSpace (TrimLeftSpace s1)
       else if r \<noteq> [] \<and> RuneSelf \<le> byte (hd r) then TrimRightSpace (rev r)
       else rev r)"
    by (simp only: TrimSpace_def Let_def s1_def r_def TrimFunc_IsSpace_def)
  show ?thesis
  proof (cases "s1 \<noteq> [] \<and> RuneSelf \<le> byte (hd s1)")
    case True
    then have res: "TrimSpace s = TrimRightSpace (TrimLeftSpace s1)"
      by (simp add: ts)
    show ?thesis
    proof (cases "TrimSpace s = []")
      case False
      have p: "prefix (TrimSpace s) (TrimLeftSpace s1)"
        unfolding res by (rule TrimRightSpace_prefix)
      with False have "hd (TrimSpace s) = hd (TrimLeftSpace s1)" by (simp add: prefix_hd)
      moreover from p False have "TrimLeftSpace s1 \<noteq> []" by auto
      ultimately have "\<not> asciiSpace (hd (TrimSpace s))"
        using TrimLeftSpace_hd [of s1] by simp
      moreover have "\<not> asciiSpace (last (TrimSpace s))"
        using TrimRightSpace_last [of "TrimLeftSpace s1"] False by (simp add: res)
      ultimately show ?thesis by simp
    qed simp
  next
    case first: False
    show ?thesis
    proof (cases "r \<noteq> [] \<and> RuneSelf \<le> byte (hd r)")
      case True
      with first have res: "TrimSpace s = TrimRightSpace (rev r)"
        by (auto simp: ts)
      show ?thesis
      proof (cases "TrimSpace s = []")
        case False
        have "prefix (TrimSpace s) (rev r)" unfolding res by (rule TrimRightSpace_prefix)
        with pre have p: "prefix (TrimSpace s) s1" by (rule prefix_order.order_trans [rotated])
        with False have "hd (TrimSpace s) = hd s1" by (simp add: prefix_hd)
        moreover from p False have "s1 \<noteq> []" by auto
        ultimately have "\<not> asciiSpace (hd (TrimSpace s))" using hd_s1 by simp
        moreover have "\<not> asciiSpace (last (TrimSpace s))"
          using TrimRightSpace_last [of "rev r"] False by (simp add: res)
        ultimately show ?thesis by simp
      qed simp
    next
      case False
      with first have res: "TrimSpace s = rev r"
        by (auto simp: ts)
      show ?thesis
      proof (cases "r = []")
        case True
        with res show ?thesis by simp
      next
        case ne: False
        with res pre have "hd (TrimSpace s) = hd s1" by (simp add: prefix_hd)
        moreover from pre ne have "s1 \<noteq> []" by auto
        ultimately have "\<not> asciiSpace (hd (TrimSpace s))" using hd_s1 by simp
        moreover have "last (TrimSpace s) = hd r" using ne by (simp add: res last_rev)
        ultimately show ?thesis using hd_r ne by simp
      qed
    qed
  qed
qed

lemma TrimSpace_length: "length (TrimSpace (take n s)) \<le> n"
proof -
  have "length (TrimSpace (take n s)) \<le> length (take n s)"
    using TrimSpace_sublist [of "take n s"] by (rule sublist_length_le)
  then show ?thesis by simp
qed

section \<open>The claims\<close>

text \<open>
  Claim C1. For every decoded event sequence, every filter value and every limit
  given by the user, the number of lines the selection loop prints is at most the
  limit clamped to the range from 1 to 100 (30 when \<open>--n\<close> is not given), and at most
  the number of events whose tag matches the filter and for which \<open>formatEvent\<close>
  returns \<open>true\<close>. The loop's counter equals the number of lines printed.
\<close>

theorem loop_prints_at_most_limit:
  "int (length (fst (loop L ty (clampLimit (flag_Int 30 given)) events ([], 0))))
       \<le> clampLimit (flag_Int 30 given)
   \<and> length (fst (loop L ty (clampLimit (flag_Int 30 given)) events ([], 0)))
       \<le> length (filter (selected L ty) events)
   \<and> snd (loop L ty (clampLimit (flag_Int 30 given)) events ([], 0))
       = int (length (fst (loop L ty (clampLimit (flag_Int 30 given)) events ([], 0))))
   \<and> clampLimit (flag_Int 30 given)
       = max 1 (min 100 (case given of None \<Rightarrow> 30 | Some v \<Rightarrow> v))"
proof -
  define lim where "lim = clampLimit (flag_Int 30 given)"
  have lim1: "1 \<le> lim" by (simp add: lim_def clampLimit_eq)
  have printed: "fst (loop L ty lim events ([], 0)) =
      map (line_of L) (take (nat lim) (filter (selected L ty) events))"
    by (simp add: loop_take_filter budget_start [OF lim1])
  have a: "int (length (fst (loop L ty lim events ([], 0)))) \<le> lim"
    using lim1 by (simp add: printed)
  have b: "length (fst (loop L ty lim events ([], 0))) \<le> length (filter (selected L ty) events)"
    by (simp add: printed)
  have c: "snd (loop L ty lim events ([], 0)) = int (length (fst (loop L ty lim events ([], 0))))"
    by (rule loop_count)
  have d: "lim = max 1 (min 100 (case given of None \<Rightarrow> 30 | Some v \<Rightarrow> v))"
    by (simp add: lim_def clampLimit_eq flag_Int_def)
  from a b c d show ?thesis unfolding lim_def by blast
qed

theorem loop_prints_at_most_limit_witness:
  "fst (loop sample_tables [] (clampLimit (flag_Int 30 (Some 2))) sample_events ([], 0)) =
     [''- Pushed 3 commit(s) to alice/repo'', ''- Starred golang/go'']
   \<and> clampLimit (flag_Int 30 (Some 2)) = 2
   \<and> clampLimit (flag_Int 30 None) = 30
   \<and> length (filter (selected sample_tables []) sample_events) = 3
   \<and> int (length (fst (loop sample_tables [] (clampLimit (flag_Int 30 (Some 2))) sample_events
                          ([], 0)))) \<le> clampLimit (flag_Int 30 (Some 2))"
proof -
  have lines: "map (\<lambda>ev. formatEvent sample_tables ev) sample_events =
     [(''Pushed 3 commit(s) to alice/repo'', True), ([], False), ([], False),
      (''Starred golang/go'', True), (''Created something in alice/new'', True)]"
    by (rule sample_events_lines)
  have lim: "clampLimit (flag_Int 30 (Some 2)) = 2" "clampLimit (flag_Int 30 None) = 30"
    by (simp_all add: clampLimit_def flag_Int_def)
  have run: "fst (loop sample_tables [] 2 sample_events ([], 0)) =
     [''- Pushed 3 commit(s) to alice/repo'', ''- Starred golang/go'']"
    using lines by (simp add: sample_events_def)
  have sel: "length (filter (selected sample_tables []) sample_events) = 3"
    using lines by (simp add: sample_events_def selected_def)
  show ?thesis
    using loop_prints_at_most_limit [of sample_tables "[]" "Some 2" sample_events] lim run sel
    by simp
qed

text \<open>
  Claim C4. For every decoded event sequence, filter and limit, the lines printed are
  the lines of a subsequence of the input events, taken in their original order: the
  filter on the tag and the stop at the limit never reorder events. Every event of
  the subsequence is a selected one.
\<close>

theorem loop_preserves_order:
  "\<exists>sub. subseq sub events \<and> list_all (selected L ty) sub
         \<and> fst (loop L ty lim events ([], 0)) = map (line_of L) sub"
proof -
  let ?sub = "take (budget lim 0) (filter (selected L ty) events)"
  have "subseq (filter (selected L ty) events) events" by simp
  moreover have "subseq ?sub (filter (selected L ty) events)"
    by (rule prefix_imp_subseq) (rule take_is_prefix)
  ultimately have "subseq ?sub events" by (rule subseq_order.order_trans [rotated])
  moreover have "list_all (selected L ty) ?sub"
    by (auto simp: list_all_iff dest: in_set_takeD)
  moreover have "fst (loop L ty lim events ([], 0)) = map (line_of L) ?sub"
    by (simp add: loop_take_filter)
  ultimately show ?thesis by blast
qed

theorem loop_preserves_order_witness:
  "\<exists>sub. subseq sub sample_events
         \<and> fst (loop sample_tables ''PushEvent'' 5 sample_events ([], 0)) =
             map (line_of sample_tables) sub
         \<and> map (line_of sample_tables) sub = [''- Pushed 3 commit(s) to alice/repo'']"
proof -
  have lines: "map (\<lambda>ev. formatEvent sample_tables ev) sample_events =
     [(''Pushed 3 commit(s) to alice/repo'', True), ([], False), ([], False),
      (''Starred golang/go'', True), (''Created something in alice/new'', True)]"
    by (rule sample_events_lines)
  have run: "fst (loop sample_tables ''PushEvent'' 5 sample_events ([], 0)) =
      [''- Pushed 3 commit(s) to alice/repo'']"
    using lines by (simp add: sample_events_def event_def)
  obtain sub where "subseq sub sample_events"
    and "fst (loop sample_tables ''PushEvent'' 5 sample_events ([], 0)) =
           map (line_of sample_tables) sub"
    using loop_preserves_order [of sample_events sample_tables "''PushEvent''" 5] by blast
  with run show ?thesis by auto
qed

text \<open>
  Claim C5, as amended. Formatting an issues event with repo \<open>alice/repo\<close> and payload
  action \<open>opened\<close>, issue number 42, issue title \<open>Bug\<close> returns the action in title
  case, the number and the title, with the title enclosed in the left and right
  double quotation marks U+201C and U+201D (bytes E2 80 9C and E2 80 9D), and \<open>true\<close>.
\<close>

theorem formatEvent_issues_curly_quotes:
  "formatEvent L (event ''IssuesEvent'' ''alice/repo'' (Some issues_payload)) =
     (''Opened an issue #42 '' @ [CHR 0xE2, CHR 0x80, CHR 0x9C] @ ''Bug''
        @ [CHR 0xE2, CHR 0x80, CHR 0x9D] @ '' in alice/repo'', True)"
  by (simp add: formatEvent_def event_def issues_payload_def ldquo_def rdquo_def
        unmarshal_eval string_eval Let_def)

text \<open>
  The claim as stated, with the title in ASCII double quotes (byte 22), fails on the
  same event.
\<close>

theorem formatEvent_issues_not_ascii_quotes:
  "formatEvent sample_tables (event ''IssuesEvent'' ''alice/repo'' (Some issues_payload)) \<noteq>
     (''Opened an issue #42 '' @ [CHR 0x22] @ ''Bug'' @ [CHR 0x22] @ '' in alice/repo'', True)"
  by (simp add: formatEvent_def event_def issues_payload_def ldquo_def rdquo_def
        unmarshal_eval string_eval Let_def)

text \<open>
  Claim C9. Formatting a fork event with repo \<open>alice/repo\<close> and the forkee full name
  \<open>bob/repo-fork\<close> returns \<open>Forked alice/repo\<close>, the arrow U+2192 and \<open>bob/repo-fork\<close>,
  with \<open>true\<close>; when the forkee full name is empty, or the forkee has no full name,
  or the payload has no forkee, the repo name stands in its place.
\<close>

theorem formatEvent_fork:
  "formatEvent L (event ''ForkEvent'' ''alice/repo'' (Some (fork_payload ''bob/repo-fork''))) =
     (''Forked alice/repo '' @ [CHR 0xE2, CHR 0x86, CHR 0x92] @ '' bob/repo-fork'', True)
   \<and> formatEvent L (event ''ForkEvent'' ''alice/repo'' (Some (fork_payload []))) =
     (''Forked alice/repo '' @ [CHR 0xE2, CHR 0x86, CHR 0x92] @ '' alice/repo'', True)
   \<and> formatEvent L (event ''ForkEvent'' ''alice/repo''
                       (Some (JObject [(''forkee'', JObject [])]))) =
     (''Forked alice/repo '' @ [CHR 0xE2, CHR 0x86, CHR 0x92] @ '' alice/repo'', True)
   \<and> formatEvent L (event ''ForkEvent'' ''alice/repo'' (Some (JObject []))) =
     (''Forked alice/repo '' @ [CHR 0xE2, CHR 0x86, CHR 0x92] @ '' alice/repo'', True)"
  by (simp add: formatEvent_def event_def fork_payload_def rarrow_def
        unmarshal_eval string_eval Let_def)

text \<open>
  Claim C10. For every event whose tag is one of \<open>CreateEvent\<close>, \<open>DeleteEvent\<close>,
  \<open>ReleaseEvent\<close>, \<open>PullRequestReviewCommentEvent\<close> and \<open>IssueCommentEvent\<close>,
  \<open>formatEvent\<close> returns the tag's fixed text followed by the repo name, with \<open>true\<close>,
  whatever the payload: replacing the payload by any other, an absent or ill-formed
  one included, does not change the result.
\<close>

theorem generic_tags_ignore_payload:
  assumes "Type ev \<in> set generic_tags"
  shows "formatEvent L ev = (generic_line (Type ev) (Name (Repo ev)), True)
         \<and> formatEvent L (ev\<lparr>Payload := payload\<rparr>) = formatEvent L ev"
  using assms by (auto simp: generic_tags_def generic_line_def formatEvent_def)

theorem generic_tags_ignore_payload_witness:
  "formatEvent sample_tables (event ''ReleaseEvent'' ''alice/repo'' None) =
     (''Published or edited a release in alice/repo'', True)
   \<and> formatEvent sample_tables (event ''ReleaseEvent'' ''alice/repo'' (Some (JArray []))) =
     (''Published or edited a release in alice/repo'', True)"
  using generic_tags_ignore_payload
          [of "event ''ReleaseEvent'' ''alice/repo'' None" sample_tables "Some (JArray [])"]
  by (simp add: generic_tags_def generic_line_def event_def)

text \<open>
  Claim C7. For every event whose tag is one of the five tags that decode the payload
  (push, issues, pull request, watch, fork), a malformed payload makes \<open>formatEvent\<close>
  return the empty line and \<open>false\<close>; the loop passes over the event without printing
  or counting, and a run that fetched such an event still exits with code 0.
\<close>

theorem malformed_payload_skipped:
  assumes "Type ev \<in> set payload_tags" and "payload_malformed ev"
  shows "formatEvent L ev = ([], False)
         \<and> loop L ty lim (ev # evs) (out, c) = loop L ty lim evs (out, c)
         \<and> (\<forall>W fl user events.
               flag_args fl = [user] \<and> fetchEvents W user = Inr events \<and> ev \<in> set events
               \<longrightarrow> exit_code (main W fl) = 0)"
proof -
  from assms have "unmarshal_fails ev" by (simp add: unmarshal_fails_iff)
  with assms(1) have skip: "formatEvent L ev = ([], False)"
    by (auto simp: payload_tags_def unmarshal_fails_def formatEvent_def isl_def)
  have "exit_code (main W fl) = 0"
    if "flag_args fl = [user]" and "fetchEvents W user = Inr events"
    for W :: "'b world_scheme" and fl user events
    using that by (simp add: main_def Let_def split: prod.splits)
  with skip show ?thesis by simp
qed

theorem malformed_payload_skipped_witness:
  "payload_malformed (event ''PushEvent'' ''bob/tool'' (Some (JObject [(''size'', JString ''3'')])))
   \<and> formatEvent sample_tables
        (event ''PushEvent'' ''bob/tool'' (Some (JObject [(''size'', JString ''3'')]))) = ([], False)
   \<and> payload_malformed (event ''IssuesEvent'' ''bob/tool'' (Some (JArray [])))
   \<and> formatEvent sample_tables (event ''IssuesEvent'' ''bob/tool'' (Some (JArray []))) = ([], False)
   \<and> payload_malformed (event ''WatchEvent'' ''bob/tool'' None)
   \<and> formatEvent sample_tables (event ''WatchEvent'' ''bob/tool'' None) = ([], False)
   \<and> payload_malformed
        (event ''PushEvent'' ''bob/tool'' (Some (JObject [(''SIZE'', JNumber ''3.5'')])))
   \<and> formatEvent sample_tables
        (event ''PushEvent'' ''bob/tool'' (Some (JObject [(''SIZE'', JNumber ''3.5'')]))) = ([], False)"
proof -
  have m1: "payload_malformed
      (event ''PushEvent'' ''bob/tool'' (Some (JObject [(''size'', JString ''3'')])))"
    by (simp add: payload_malformed_def payload_ok_def event_def object_ok_def push_member_ok_def
          int_ok_def key_is_def)
  have m2: "payload_malformed (event ''IssuesEvent'' ''bob/tool'' (Some (JArray [])))"
    by (simp add: payload_malformed_def payload_ok_def event_def object_ok_def)
  have m3: "payload_malformed (event ''WatchEvent'' ''bob/tool'' None)"
    by (simp add: payload_malformed_def payload_ok_def event_def)
  have m4: "payload_malformed
      (event ''PushEvent'' ''bob/tool'' (Some (JObject [(''SIZE'', JNumber ''3.5'')])))"
    by (simp add: payload_malformed_def payload_ok_def event_def object_ok_def push_member_ok_def
          int_ok_def key_is_def string_eval)
  have t1: "Type (event ''PushEvent'' ''bob/tool'' p) \<in> set payload_tags" for p
    by (simp add: event_def payload_tags_def)
  have t2: "Type (event ''IssuesEvent'' ''bob/tool'' p) \<in> set payload_tags" for p
    by (simp add: event_def payload_tags_def)
  have t3: "Type (event ''WatchEvent'' ''bob/tool'' p) \<in> set payload_tags" for p
    by (simp add: event_def payload_tags_def)
  show ?thesis
    using m1 m2 m3 m4
      malformed_payload_skipped [OF t1 m1, of sample_tables, THEN conjunct1]
      malformed_payload_skipped [OF t2 m2, of sample_tables, THEN conjunct1]
      malformed_payload_skipped [OF t3 m3, of sample_tables, THEN conjunct1]
      malformed_payload_skipped [OF t1 m4, of sample_tables, THEN conjunct1]
    by blast
qed

text \<open>
  Claim C6, at the input where the code departs from it. \<open>titleCase\<close> cuts the string
  after its first byte, not after its first character. On the string \<open>e-acute l a n\<close>
  (bytes C3 A9 6C 61 6E), with case tables that agree with Unicode on U+00E9 and on
  U+FFFD, the first byte C3 and the rest A9 6C 61 6E are converted apart; each starts
  with an ill-formed byte, which is read as U+FFFD. The result is U+FFFD U+FFFD l a n,
  where upper-casing the first character and lower-casing the remainder gives
  \<open>E-acute l a n\<close> (bytes C3 89 6C 61 6E).
\<close>

theorem titleCase_cuts_first_character:
  assumes "To_UpperCase L 0xFFFD = 0xFFFD" and "To_LowerCase L 0xFFFD = 0xFFFD"
    and "To_UpperCase L 0xE9 = 0xC9"
  shows "titleCase L ([CHR 0xC3, CHR 0xA9] @ ''lan'') =
           [CHR 0xEF, CHR 0xBF, CHR 0xBD, CHR 0xEF, CHR 0xBF, CHR 0xBD] @ ''lan''
         \<and> titleCase_spec L ([CHR 0xC3, CHR 0xA9] @ ''lan'') = [CHR 0xC3, CHR 0x89] @ ''lan''"
  using assms
  by (simp add: titleCase_def titleCase_spec_def ToLower_def ToUpper_def isASCII_def RuneSelf_def
        byte_def utf8_eval Let_def chr_eq_iff ascii_lower_def)

theorem titleCase_cuts_first_character_witness:
  "titleCase sample_tables ([CHR 0xC3, CHR 0xA9] @ ''lan'') =
     [CHR 0xEF, CHR 0xBF, CHR 0xBD, CHR 0xEF, CHR 0xBF, CHR 0xBD] @ ''lan''
   \<and> titleCase sample_tables ([CHR 0xC3, CHR 0xA9] @ ''lan'')
       \<noteq> titleCase_spec sample_tables ([CHR 0xC3, CHR 0xA9] @ ''lan'')
   \<and> formatEvent sample_tables
         (event ''IssuesEvent'' ''alice/repo''
            (Some (JObject [(''action'', JString ([CHR 0xC3, CHR 0xA9] @ ''lan''))]))) =
       ([CHR 0xEF, CHR 0xBF, CHR 0xBD, CHR 0xEF, CHR 0xBF, CHR 0xBD] @ ''lan an issue #0 ''
          @ [CHR 0xE2, CHR 0x80, CHR 0x9C, CHR 0xE2, CHR 0x80, CHR 0x9D] @ '' in alice/repo'', True)"
proof -
  have lower: "ToLower sample_tables ([CHR 0xC3, CHR 0xA9] @ ''lan'') = [CHR 0xC3, CHR 0xA9] @ ''lan''"
    by (simp add: ToLower_def isASCII_def RuneSelf_def byte_def utf8_eval Let_def chr_eq_iff
          sample_tables_def)
  have title: "titleCase sample_tables ([CHR 0xC3, CHR 0xA9] @ ''lan'') =
      [CHR 0xEF, CHR 0xBF, CHR 0xBD, CHR 0xEF, CHR 0xBF, CHR 0xBD] @ ''lan''"
    and spec: "titleCase_spec sample_tables ([CHR 0xC3, CHR 0xA9] @ ''lan'') =
      [CHR 0xC3, CHR 0x89] @ ''lan''"
    using titleCase_cuts_first_character [of sample_tables]
    by (simp_all add: sample_tables_def)
  have "formatEvent sample_tables
         (event ''IssuesEvent'' ''alice/repo''
            (Some (JObject [(''action'', JString ([CHR 0xC3, CHR 0xA9] @ ''lan''))]))) =
       (titleCase sample_tables (ToLower sample_tables ([CHR 0xC3, CHR 0xA9] @ ''lan''))
          @ '' an issue #0 '' @ ldquo @ rdquo @ '' in alice/repo'', True)"
    by (simp add: formatEvent_def event_def unmarshal_eval byte_def RuneSelf_def ascii_upper_def
          chr_eq_iff eq_chr_iff FormatInt_def natDigits.simps Let_def)
  with lower title spec show ?thesis
    by (simp add: ldquo_def rdquo_def)
qed

text \<open>
  Claim C8. When the fetch succeeds: if the decoded event sequence is empty, the
  program prints \<open>No recent public activity.\<close> and nothing else, and exits with code 0;
  if the sequence is not empty and the loop printed no line, it prints
  \<open>No events of type X found.\<close> (X the quoted filter) when a filter was set and
  \<open>No printable events found.\<close> otherwise, and exits with code 0; if the loop printed
  lines, they are the whole output, and the exit code is 0.
\<close>

theorem main_informational_messages:
  assumes "flag_args fl = [user]" and "fetchEvents W user = Inr events"
  shows "main W fl =
     (if events = []
      then \<lparr>stdout = [''No recent public activity.''], stderr = [], exit_code = 0\<rparr>
      else if fst (loop W (flag_type fl) (clampLimit (flag_Int 30 (flag_n fl))) events ([], 0)) \<noteq> []
      then \<lparr>stdout = fst (loop W (flag_type fl) (clampLimit (flag_Int 30 (flag_n fl))) events ([], 0)),
            stderr = [], exit_code = 0\<rparr>
      else if flag_type fl \<noteq> []
      then \<lparr>stdout = [''No events of type '' @ Quote W (flag_type fl) @ '' found.''],
            stderr = [], exit_code = 0\<rparr>
      else \<lparr>stdout = [''No printable events found.''], stderr = [], exit_code = 0\<rparr>)"
proof -
  let ?run = "loop W (flag_type fl) (clampLimit (flag_Int 30 (flag_n fl))) events ([], 0)"
  obtain out count where run: "?run = (out, count)" by (cases ?run)
  have "count = int (length out)"
    using loop_count [of W "flag_type fl" "clampLimit (flag_Int 30 (flag_n fl))" events] run
    by simp
  then have zero: "count = 0 \<longleftrightarrow> out = []" by simp
  show ?thesis
    using assms run zero by (simp add: main_def Let_def)
qed

theorem main_informational_messages_witness:
  "main (sample_world ok_response []) (flags [] None [''torvalds'']) =
     \<lparr>stdout = [''No recent public activity.''], stderr = [], exit_code = 0\<rparr>
   \<and> main (sample_world ok_response [event ''GollumEvent'' ''alice/wiki'' None])
        (flags ''PushEvent'' None [''alice'']) =
     \<lparr>stdout = [''No events of type '' @ [CHR 0x22] @ ''PushEvent'' @ [CHR 0x22] @ '' found.''],
      stderr = [], exit_code = 0\<rparr>
   \<and> main (sample_world ok_response [event ''GollumEvent'' ''alice/wiki'' None])
        (flags [] None [''alice'']) =
     \<lparr>stdout = [''No printable events found.''], stderr = [], exit_code = 0\<rparr>"
  using main_informational_messages
          [of "flags [] None [''torvalds'']" "''torvalds''" "sample_world ok_response []" "[]"]
    main_informational_messages
          [of "flags ''PushEvent'' None [''alice'']" "''alice''"
              "sample_world ok_response [event ''GollumEvent'' ''alice/wiki'' None]"
              "[event ''GollumEvent'' ''alice/wiki'' None]"]
    main_informational_messages
          [of "flags [] None [''alice'']" "''alice''"
              "sample_world ok_response [event ''GollumEvent'' ''alice/wiki'' None]"
              "[event ''GollumEvent'' ''alice/wiki'' None]"]
  by (simp add: world_eval ok_response_def event_def formatEvent_def dquote_def)

text \<open>
  Claim C2, as amended. For every HTTP 403 response whose \<open>X-RateLimit-Remaining\<close>
  header equals \<open>0\<close>, \<open>fetchEvents\<close> fails with the rate-limit message; the message
  ends with the annotation \<open>(resets at T)\<close>, T being the local-time rendering of the
  reset time, if and only if the \<open>X-RateLimit-Reset\<close> header is present, parses with
  \<open>strconv.ParseInt\<close> as a decimal integer of the signed 64-bit range, and its value is
  not -62135596800 (the second that \<open>time.Unix\<close> maps to the zero time, which the
  \<open>IsZero\<close> guard takes for a failed parse); otherwise the message carries no
  annotation.
\<close>

theorem rate_limited_message:
  assumes "Get W (eventsURL user) = Responded resp"
    and "StatusCode resp = 403"
    and "Header_Get (Header resp) ''X-RateLimit-Remaining'' = ''0''"
  shows "fetchEvents W user =
           Inl (''rate limit exceeded; set GITHUB_TOKEN to increase limits''
                  @ annotation W (Header_Get (Header resp) ''X-RateLimit-Reset''))
         \<and> (annotation W (Header_Get (Header resp) ''X-RateLimit-Reset'') \<noteq> [] \<longleftrightarrow>
              (\<exists>sec. ParseInt (Header_Get (Header resp) ''X-RateLimit-Reset'') = Inr sec
                     \<and> sec \<noteq> - 62135596800))
         \<and> (annotation W (Header_Get (Header resp) ''X-RateLimit-Reset'') \<noteq> [] \<longleftrightarrow>
              (\<exists>sec. annotation W (Header_Get (Header resp) ''X-RateLimit-Reset'') =
                       '' (resets at '' @ Local_Format_RFC1123 W (Unix sec) @ '')''))"
proof -
  have "fetchEvents W user =
          Inl (rateLimitMessage W (Header_Get (Header resp) ''X-RateLimit-Reset''))"
    using assms by (simp add: fetchEvents_def)
  moreover have "annotation W r \<noteq> [] \<longleftrightarrow> (\<exists>sec. ParseInt r = Inr sec \<and> sec \<noteq> - 62135596800)"
    for r
    by (cases "ParseInt r") (simp_all add: annotation_def)
  moreover have "annotation W r \<noteq> [] \<longleftrightarrow>
      (\<exists>sec. annotation W r = '' (resets at '' @ Local_Format_RFC1123 W (Unix sec) @ '')'')"
    for r
    by (cases "ParseInt r") (auto simp: annotation_def)
  ultimately show ?thesis by (simp add: rateLimitMessage_eq)
qed

theorem rate_limited_message_witness:
  "fetchEvents (sample_world (rate_limited_response ''1710000000'') []) ''someone'' =
     Inl ''rate limit exceeded; set GITHUB_TOKEN to increase limits (resets at LOCAL-TIME)''
   \<and> fetchEvents (sample_world (rate_limited_response ''soon'') []) ''someone'' =
     Inl ''rate limit exceeded; set GITHUB_TOKEN to increase limits''
   \<and> fetchEvents (sample_world (rate_limited_response []) []) ''someone'' =
     Inl ''rate limit exceeded; set GITHUB_TOKEN to increase limits''
   \<and> fetchEvents (sample_world (rate_limited_response ''99999999999999999999'') []) ''someone'' =
     Inl ''rate limit exceeded; set GITHUB_TOKEN to increase limits''"
proof -
  have hyp: "Get (sample_world (rate_limited_response r) []) (eventsURL ''someone'') =
        Responded (response 403 ''403 Forbidden''
          [(''X-Ratelimit-Remaining'', ''0''), (''X-Ratelimit-Reset'', r)]
          (''forbidden'' @ [CHR 0x0A]))"
    "StatusCode (response 403 ''403 Forbidden''
          [(''X-Ratelimit-Remaining'', ''0''), (''X-Ratelimit-Reset'', r)]
          (''forbidden'' @ [CHR 0x0A])) = 403"
    "Header_Get (Header (response 403 ''403 Forbidden''
          [(''X-Ratelimit-Remaining'', ''0''), (''X-Ratelimit-Reset'', r)]
          (''forbidden'' @ [CHR 0x0A]))) ''X-RateLimit-Remaining'' = ''0''"
    for r
    by (simp_all add: sample_world_def rate_limited_response_def response_def Header_Get_def
          canonical_keys)
  have reset: "Header_Get (Header (response 403 ''403 Forbidden''
          [(''X-Ratelimit-Remaining'', ''0''), (''X-Ratelimit-Reset'', r)]
          (''forbidden'' @ [CHR 0x0A]))) ''X-RateLimit-Reset'' = r" for r
    by (simp add: response_def Header_Get_def canonical_keys)
  have a: "annotation (sample_world x []) ''1710000000'' = '' (resets at LOCAL-TIME)''" for x
    by (simp add: annotation_def sample_world_def string_eval)
  have b: "annotation (sample_world x []) ''soon'' = []" for x
    by (simp add: annotation_def string_eval)
  have c: "annotation (sample_world x []) [] = []" for x
    by (simp add: annotation_def string_eval)
  have d: "annotation (sample_world x []) ''99999999999999999999'' = []" for x
    by (simp add: annotation_def string_eval)
  note msg = rate_limited_message [OF hyp, THEN conjunct1, unfolded reset]
  show ?thesis
    using msg [of "''1710000000''"] msg [of "''soon''"] msg [of "[]"]
      msg [of "''99999999999999999999''"]
    by (simp add: a b c d)
qed

text \<open>
  The claim as stated fails on a 403 response with no quota left whose reset header
  is \<open>-62135596800\<close>: the header is present and parses as a decimal integer, and the
  message carries no annotation.
\<close>

theorem reset_at_zero_time_not_annotated:
  "ParseInt ''-62135596800'' = Inr (- 62135596800)
   \<and> fetchEvents (sample_world (rate_limited_response ''-62135596800'') []) ''someone'' =
       Inl ''rate limit exceeded; set GITHUB_TOKEN to increase limits''"
proof -
  have p: "ParseInt ''-62135596800'' = Inr (- 62135596800)"
    by (simp add: string_eval)
  have z: "IsZero (Unix (- 62135596800))"
    by (simp add: IsZero_def Unix_def unixToInternal_value)
  show ?thesis
    using p z
    by (simp add: world_eval rate_limited_response_def rateLimitMessage_def parseUnix_def Let_def)
qed

text \<open>
  Claim C3. For every response whose status is outside 200 to 299 and that is neither
  a 404 nor a 403 with \<open>X-RateLimit-Remaining\<close> equal to \<open>0\<close>, \<open>fetchEvents\<close> fails with
  the message \<open>github api error:\<close>, the status text, a colon and the body cut to its
  first 512 bytes and then trimmed of surrounding white space: a contiguous part of
  those bytes, at most 512 long, that neither starts nor ends with an ASCII
  white-space byte.
\<close>

theorem generic_api_error_message:
  assumes "Get W (eventsURL user) = Responded resp"
    and "StatusCode resp < 200 \<or> 300 \<le> StatusCode resp"
    and "StatusCode resp \<noteq> 404"
    and "\<not> (StatusCode resp = 403 \<and> Header_Get (Header resp) ''X-RateLimit-Remaining'' = ''0'')"
  shows "fetchEvents W user =
           Inl (''github api error: '' @ Status resp @ '': '' @ TrimSpace (take 512 (Body resp)))
         \<and> sublist (TrimSpace (take 512 (Body resp))) (take 512 (Body resp))
         \<and> length (TrimSpace (take 512 (Body resp))) \<le> 512
         \<and> (TrimSpace (take 512 (Body resp)) = []
              \<or> (\<not> asciiSpace (hd (TrimSpace (take 512 (Body resp))))
                  \<and> \<not> asciiSpace (last (TrimSpace (take 512 (Body resp))))))"
proof -
  have "fetchEvents W user =
          Inl (''github api error: '' @ Status resp @ '': '' @ TrimSpace (take 512 (Body resp)))"
    using assms by (auto simp: fetchEvents_def)
  then show ?thesis
    using TrimSpace_sublist [of "take 512 (Body resp)"] TrimSpace_length [of 512 "Body resp"]
      TrimSpace_ends [of "take 512 (Body resp)"]
    by blast
qed

theorem generic_api_error_message_witness:
  "fetchEvents (sample_world bad_gateway_response []) ''anyone'' =
     Inl ''github api error: 502 Bad Gateway: bad gateway''"
proof -
  have trim: "TrimSpace (take 512 (''bad gateway'' @ [CHR 0x0A])) = ''bad gateway''"
    by (simp add: TrimSpace_def asciiSpace_def byte_def RuneSelf_def)
  show ?thesis
    using generic_api_error_message
            [of "sample_world bad_gateway_response []" "''anyone''"
                "response 502 ''502 Bad Gateway'' [] (''bad gateway'' @ [CHR 0x0A])",
             THEN conjunct1]
      trim
    by (simp add: sample_world_def bad_gateway_response_def response_def Header_Get_def)
qed

end
